theory Spec2Isabelle
  imports Main "HOL-Library.Word" "HOL-Library.Signed_Division"
begin

unbundle bit_operations_syntax

section \<open>Native integers\<close>

text \<open>
  A native integer type is its signedness and its width. A typed value carries the type
  next to the mathematical integer it denotes. The data model is LP64: \<open>int\<close> has 32
  bits, \<open>int64_t\<close> and \<open>size_t\<close> have 64.
\<close>

datatype int_type = IntType (is_signed: bool) (bits: nat)

datatype cval = CVal (type_of: int_type) (int_of: int)

definition int8_t :: int_type where "int8_t = IntType True 8"
definition uint8_t :: int_type where "uint8_t = IntType False 8"
definition int_t :: int_type where "int_t = IntType True 32"
definition unsigned_int_t :: int_type where "unsigned_int_t = IntType False 32"
definition int64_t :: int_type where "int64_t = IntType True 64"
definition size_t :: int_type where "size_t = IntType False 64"

text \<open>
  \<open>static_cast<T>(v)\<close> between integer types: the value of \<open>T\<close> congruent to \<open>v\<close>
  modulo \<open>2 ^ bits T\<close>.
\<close>

definition static_cast :: "int_type \<Rightarrow> int \<Rightarrow> int" where
  "static_cast T v =
     (if is_signed T then signed_take_bit (bits T - 1) v else take_bit (bits T) v)"

definition cast_to :: "int_type \<Rightarrow> cval \<Rightarrow> cval" where
  "cast_to T c = CVal T (static_cast T (int_of c))"

text \<open>Integral promotion: every type narrower than \<open>int\<close> becomes \<open>int\<close>.\<close>

definition promote :: "int_type \<Rightarrow> int_type" where
  "promote T = (if bits T < 32 then int_t else T)"

text \<open>
  The usual arithmetic conversions on the promoted operand types: equal signedness takes
  the wider type; otherwise the unsigned type wins unless the signed one is strictly
  wider, which then holds every value of the unsigned one.
\<close>

definition common_type :: "int_type \<Rightarrow> int_type \<Rightarrow> int_type" where
  "common_type T U =
     (let T' = promote T; U' = promote U in
      if is_signed T' = is_signed U' then (if bits U' \<le> bits T' then T' else U')
      else if is_signed T' then (if bits T' \<le> bits U' then U' else T')
      else (if bits U' \<le> bits T' then T' else U'))"

datatype binop = Add | Sub | Mul | Div | Mod | Shl | Shr | BitAnd | BitOr | BitXor

text \<open>
  An arithmetic or bitwise operator on two values of the computation type \<open>C\<close>.
  \<open>+\<close>, \<open>-\<close> and \<open>*\<close> wrap modulo \<open>2 ^ bits C\<close>; \<open>/\<close> and \<open>%\<close> truncate towards
  zero and have no value when the divisor is zero or the quotient is not a value of
  \<open>C\<close>. The shifts take no common type and are not computed here.
\<close>

fun arith :: "binop \<Rightarrow> int_type \<Rightarrow> int \<Rightarrow> int \<Rightarrow> int option" where
  "arith Add C a b = Some (static_cast C (a + b))"
| "arith Sub C a b = Some (static_cast C (a - b))"
| "arith Mul C a b = Some (static_cast C (a * b))"
| "arith Div C a b =
     (if b = 0 then None
      else if static_cast C (a sdiv b) = a sdiv b then Some (a sdiv b) else None)"
| "arith Mod C a b =
     (if b = 0 then None
      else if static_cast C (a sdiv b) = a sdiv b then Some (a smod b) else None)"
| "arith BitAnd C a b = Some (a AND b)"
| "arith BitOr C a b = Some (a OR b)"
| "arith BitXor C a b = Some (a XOR b)"
| "arith Shl C a b = None"
| "arith Shr C a b = None"

text \<open>
  The built-in binary operators. A shift has the promoted type of its left operand and
  no value when the count is negative or not below the width; \<open><<\<close> wraps, \<open>>>\<close> is
  arithmetic. Every other operator converts both operands to their common type first.
\<close>

definition native_binop :: "binop \<Rightarrow> cval \<Rightarrow> cval \<Rightarrow> cval option" where
  "native_binop op x y =
     (if op = Shl \<or> op = Shr then
        (let C = promote (type_of x) in
         if int_of y < 0 then None
         else if int (bits C) \<le> int_of y then None
         else if op = Shl then
           Some (CVal C (static_cast C (push_bit (nat (int_of y)) (int_of x))))
         else Some (CVal C (drop_bit (nat (int_of y)) (int_of x))))
      else
        (let C = common_type (type_of x) (type_of y) in
         map_option (CVal C)
           (arith op C (static_cast C (int_of x)) (static_cast C (int_of y)))))"

datatype cmpop = Eq | Ne | Lt | Le | Gt | Ge

definition native_compare :: "cmpop \<Rightarrow> cval \<Rightarrow> cval \<Rightarrow> bool" where
  "native_compare op x y =
     (let C = common_type (type_of x) (type_of y);
          a = static_cast C (int_of x);
          b = static_cast C (int_of y)
      in case op of
           Eq \<Rightarrow> a = b
         | Ne \<Rightarrow> a \<noteq> b
         | Lt \<Rightarrow> a < b
         | Le \<Rightarrow> a \<le> b
         | Gt \<Rightarrow> a > b
         | Ge \<Rightarrow> a \<ge> b)"

section \<open>Validators\<close>

text \<open>
  One constructor per validation function, holding the arguments of the call. Arguments
  of the strengthened type are the stored representation \<open>'w\<close>; arguments of any other
  numeric type are typed values.
\<close>

datatype 'w hook_call =
    ValidateInit cval
  | ValidateNegate 'w
  | ValidateBitNot 'w
  | ValidateAdd 'w 'w
  | ValidateSubtract 'w 'w
  | ValidateMultiply 'w cval
  | ValidateDivide 'w cval
  | ValidateModulo 'w cval
  | ValidateLeftShift 'w cval
  | ValidateRightShift 'w cval
  | ValidateBitAnd 'w 'w
  | ValidateBitOr 'w 'w
  | ValidateBitXor 'w 'w

text \<open>
  StrongInt never reads what a validation function returns: a validator can only fail by
  aborting. So a validator maps each call to whether control comes back.
\<close>

datatype hook_effect = Continues | Aborts

type_synonym 'w validator = "'w hook_call \<Rightarrow> hook_effect"

fun NullStrongIntValidator :: "'w validator" where
  "NullStrongIntValidator (ValidateInit arg) = Continues"
| "NullStrongIntValidator (ValidateNegate v) = Continues"
| "NullStrongIntValidator (ValidateBitNot v) = Continues"
| "NullStrongIntValidator (ValidateAdd lhs rhs) = Continues"
| "NullStrongIntValidator (ValidateSubtract lhs rhs) = Continues"
| "NullStrongIntValidator (ValidateMultiply lhs rhs) = Continues"
| "NullStrongIntValidator (ValidateDivide lhs rhs) = Continues"
| "NullStrongIntValidator (ValidateModulo lhs rhs) = Continues"
| "NullStrongIntValidator (ValidateLeftShift lhs rhs) = Continues"
| "NullStrongIntValidator (ValidateRightShift lhs rhs) = Continues"
| "NullStrongIntValidator (ValidateBitAnd lhs rhs) = Continues"
| "NullStrongIntValidator (ValidateBitOr lhs rhs) = Continues"
| "NullStrongIntValidator (ValidateBitXor lhs rhs) = Continues"

section \<open>Running an operation\<close>

text \<open>
  An operation yields the validation calls it made, in order, and how it ended: with a
  result, aborted inside a validator, or in an operation without a value.
\<close>

datatype 'r outcome = Returns 'r | Aborted | Undefined

type_synonym ('w, 'r) run = "'w hook_call list \<times> 'r outcome"

definition ret :: "'r \<Rightarrow> ('w, 'r) run" where
  "ret r = ([], Returns r)"

definition invoke :: "'w validator \<Rightarrow> 'w hook_call \<Rightarrow> ('w, unit) run" where
  "invoke V h = ([h], case V h of Continues \<Rightarrow> Returns () | Aborts \<Rightarrow> Aborted)"

definition builtin :: "'r option \<Rightarrow> ('w, 'r) run" where
  "builtin r = ([], case r of Some v \<Rightarrow> Returns v | None \<Rightarrow> Undefined)"

definition and_then :: "('w, 'r) run \<Rightarrow> ('r \<Rightarrow> ('w, 's) run) \<Rightarrow> ('w, 's) run" where
  "and_then m f =
     (case m of
        (t, Returns r) \<Rightarrow> (case f r of (t', res) \<Rightarrow> (t @ t', res))
      | (t, Aborted) \<Rightarrow> (t, Aborted)
      | (t, Undefined) \<Rightarrow> (t, Undefined))"

section \<open>StrongInt\<close>

text \<open>
  The template parameters of an instantiation \<open>StrongInt<TagType, NativeType,
  ValidatorType>\<close>. The width of \<open>NativeType\<close> is the length of the word type \<open>'a\<close>,
  its signedness is a field. Plain \<open>char\<close> is a type of its own, different from both
  \<open>signed char\<close> (which is \<open>int8_t\<close>) and \<open>unsigned char\<close> (which is \<open>uint8_t\<close>)
  though it has the width and the signedness of one of them: \<open>NativePlainChar\<close> tells
  whether \<open>NativeType\<close> is that type.
\<close>

record 'w strong_type =
  TypeName :: string
  NativeSigned :: bool
  NativePlainChar :: bool
  Validator :: "'w validator"

text \<open>The class has one data member, \<^verbatim>\<open>value_\<close>, here \<open>value_m\<close>.\<close>

record 'w StrongInt =
  value_m :: 'w

definition ValueType :: "'a::len word strong_type \<Rightarrow> int_type" where
  "ValueType I = IntType (NativeSigned I) LENGTH('a)"

text \<open>Whether \<open>NativeType\<close> is the type \<open>T\<close> itself, as template deduction asks.\<close>

definition NativeType_is :: "'a::len word strong_type \<Rightarrow> int_type \<Rightarrow> bool" where
  "NativeType_is I T = (if NativePlainChar I then False else ValueType I = T)"

text \<open>A stored word read as a value of the native type, and the cast back.\<close>

definition native_value :: "'a::len word strong_type \<Rightarrow> 'a word \<Rightarrow> cval" where
  "native_value I w = CVal (ValueType I) (if NativeSigned I then sint w else uint w)"

definition stored :: "cval \<Rightarrow> 'a::len word" where
  "stored c = word_of_int (int_of c)"

text \<open>\<open>constexpr StrongInt()\<close>\<close>

definition StrongInt_default ::
  "'a::len word strong_type \<Rightarrow> ('a word, 'a word StrongInt) run" where
  "StrongInt_default I =
     and_then (invoke (Validator I) (ValidateInit (native_value I 0)))
       (\<lambda>_. ret \<lparr>value_m = 0\<rparr>)"

text \<open>\<open>explicit constexpr StrongInt(T init_value)\<close>\<close>

definition StrongInt_init ::
  "'a::len word strong_type \<Rightarrow> cval \<Rightarrow> ('a word, 'a word StrongInt) run" where
  "StrongInt_init I init_value =
     and_then (invoke (Validator I) (ValidateInit init_value))
       (\<lambda>_. ret \<lparr>value_m = stored (cast_to (ValueType I) init_value)\<rparr>)"

text \<open>
  The built-in \<open>v op= arg\<close> on a stored value: the operator on the native values, cast
  back to the native type. \<open>++v\<close> is \<open>v += 1\<close> and \<open>--v\<close> is \<open>v -= 1\<close>.
\<close>

definition native_assign ::
  "binop \<Rightarrow> 'a::len word strong_type \<Rightarrow> 'a word \<Rightarrow> cval \<Rightarrow> 'a word option" where
  "native_assign op I v arg =
     map_option (\<lambda>r. stored (cast_to (ValueType I) r))
       (native_binop op (native_value I v) arg)"

text \<open>
  What a member operator hands back: \<open>*this\<close>, a reference to the instance it was
  called on, or a temporary of its own.
\<close>

datatype 'w returned = This | Temp "'w StrongInt"

fun deref :: "'w StrongInt \<Rightarrow> 'w returned \<Rightarrow> 'w StrongInt" where
  "deref x This = x"
| "deref x (Temp t) = t"

text \<open>
  The increment and decrement operators take the instance and give its state after the
  call next to what they return.
\<close>

definition pre_increment ::
  "'a::len word strong_type \<Rightarrow> 'a word StrongInt
     \<Rightarrow> ('a word, 'a word StrongInt \<times> 'a word returned) run" where
  "pre_increment I x =
     and_then (invoke (Validator I) (ValidateAdd (value_m x) 1))
       (\<lambda>_. and_then (builtin (native_assign Add I (value_m x) (CVal int_t 1)))
          (\<lambda>v. ret (\<lparr>value_m = v\<rparr>, This)))"

definition post_increment ::
  "'a::len word strong_type \<Rightarrow> 'a word StrongInt
     \<Rightarrow> ('a word, 'a word StrongInt \<times> 'a word returned) run" where
  "post_increment I x =
     and_then (invoke (Validator I) (ValidateAdd (value_m x) 1))
       (\<lambda>_. let temp = x in
          and_then (builtin (native_assign Add I (value_m x) (CVal int_t 1)))
            (\<lambda>v. ret (\<lparr>value_m = v\<rparr>, Temp temp)))"

definition pre_decrement ::
  "'a::len word strong_type \<Rightarrow> 'a word StrongInt
     \<Rightarrow> ('a word, 'a word StrongInt \<times> 'a word returned) run" where
  "pre_decrement I x =
     and_then (invoke (Validator I) (ValidateSubtract (value_m x) 1))
       (\<lambda>_. and_then (builtin (native_assign Sub I (value_m x) (CVal int_t 1)))
          (\<lambda>v. ret (\<lparr>value_m = v\<rparr>, This)))"

definition post_decrement ::
  "'a::len word strong_type \<Rightarrow> 'a word StrongInt
     \<Rightarrow> ('a word, 'a word StrongInt \<times> 'a word returned) run" where
  "post_decrement I x =
     and_then (invoke (Validator I) (ValidateSubtract (value_m x) 1))
       (\<lambda>_. let temp = x in
          and_then (builtin (native_assign Sub I (value_m x) (CVal int_t 1)))
            (\<lambda>v. ret (\<lparr>value_m = v\<rparr>, Temp temp)))"

subsection \<open>Binary operators\<close>

text \<open>
  The three operator macros, with the operator and the validation function as
  parameters. The validation call comes first (left operand of the comma), then the
  built-in operator, then the constructor from the result cast to \<open>ValueType\<close>.
\<close>

definition STRONG_INT_VS_STRONG_INT_BINARY_OP ::
  "binop \<Rightarrow> ('a word \<Rightarrow> 'a word \<Rightarrow> 'a word hook_call) \<Rightarrow> 'a::len word strong_type
     \<Rightarrow> 'a word StrongInt \<Rightarrow> 'a word StrongInt \<Rightarrow> ('a word, 'a word StrongInt) run" where
  "STRONG_INT_VS_STRONG_INT_BINARY_OP op validator I lhs rhs =
     and_then (invoke (Validator I) (validator (value_m lhs) (value_m rhs)))
       (\<lambda>_. and_then
          (builtin (native_binop op (native_value I (value_m lhs))
             (native_value I (value_m rhs))))
          (\<lambda>r. StrongInt_init I (cast_to (ValueType I) r)))"

definition STRONG_INT_VS_NUMERIC_BINARY_OP ::
  "binop \<Rightarrow> ('a word \<Rightarrow> cval \<Rightarrow> 'a word hook_call) \<Rightarrow> 'a::len word strong_type
     \<Rightarrow> 'a word StrongInt \<Rightarrow> cval \<Rightarrow> ('a word, 'a word StrongInt) run" where
  "STRONG_INT_VS_NUMERIC_BINARY_OP op validator I lhs rhs =
     and_then (invoke (Validator I) (validator (value_m lhs) rhs))
       (\<lambda>_. and_then (builtin (native_binop op (native_value I (value_m lhs)) rhs))
          (\<lambda>r. StrongInt_init I (cast_to (ValueType I) r)))"

definition NUMERIC_VS_STRONG_INT_BINARY_OP ::
  "binop \<Rightarrow> ('a word \<Rightarrow> cval \<Rightarrow> 'a word hook_call) \<Rightarrow> 'a::len word strong_type
     \<Rightarrow> cval \<Rightarrow> 'a word StrongInt \<Rightarrow> ('a word, 'a word StrongInt) run" where
  "NUMERIC_VS_STRONG_INT_BINARY_OP op validator I lhs rhs =
     and_then (invoke (Validator I) (validator (value_m rhs) lhs))
       (\<lambda>_. and_then (builtin (native_binop op (native_value I (value_m rhs)) lhs))
          (\<lambda>r. StrongInt_init I (cast_to (ValueType I) r)))"

text \<open>
  The shift validators declare their right parameter as \<open>int64_t\<close>, so the count is
  converted at the call.
\<close>

definition LeftShift_call :: "'w \<Rightarrow> cval \<Rightarrow> 'w hook_call" where
  "LeftShift_call lhs rhs = ValidateLeftShift lhs (cast_to int64_t rhs)"

definition RightShift_call :: "'w \<Rightarrow> cval \<Rightarrow> 'w hook_call" where
  "RightShift_call lhs rhs = ValidateRightShift lhs (cast_to int64_t rhs)"

text \<open>
  The operators the header instantiates from the macros, by operator and operand kinds,
  in the order of the source. \<open>None\<close>: the header has no operator for these operands.
\<close>

datatype 'w operand = Strong "'w StrongInt" | Numeric cval

fun binary_operator ::
  "'a::len word strong_type \<Rightarrow> binop \<Rightarrow> 'a word operand \<Rightarrow> 'a word operand
     \<Rightarrow> ('a word, 'a word StrongInt) run option" where
  "binary_operator I Add (Strong lhs) (Strong rhs) =
     Some (STRONG_INT_VS_STRONG_INT_BINARY_OP Add ValidateAdd I lhs rhs)"
| "binary_operator I Sub (Strong lhs) (Strong rhs) =
     Some (STRONG_INT_VS_STRONG_INT_BINARY_OP Sub ValidateSubtract I lhs rhs)"
| "binary_operator I BitAnd (Strong lhs) (Strong rhs) =
     Some (STRONG_INT_VS_STRONG_INT_BINARY_OP BitAnd ValidateBitAnd I lhs rhs)"
| "binary_operator I BitOr (Strong lhs) (Strong rhs) =
     Some (STRONG_INT_VS_STRONG_INT_BINARY_OP BitOr ValidateBitOr I lhs rhs)"
| "binary_operator I BitXor (Strong lhs) (Strong rhs) =
     Some (STRONG_INT_VS_STRONG_INT_BINARY_OP BitXor ValidateBitXor I lhs rhs)"
| "binary_operator I Mul (Strong lhs) (Numeric rhs) =
     Some (STRONG_INT_VS_NUMERIC_BINARY_OP Mul ValidateMultiply I lhs rhs)"
| "binary_operator I Mul (Numeric lhs) (Strong rhs) =
     Some (NUMERIC_VS_STRONG_INT_BINARY_OP Mul ValidateMultiply I lhs rhs)"
| "binary_operator I Div (Strong lhs) (Numeric rhs) =
     Some (STRONG_INT_VS_NUMERIC_BINARY_OP Div ValidateDivide I lhs rhs)"
| "binary_operator I Mod (Strong lhs) (Numeric rhs) =
     Some (STRONG_INT_VS_NUMERIC_BINARY_OP Mod ValidateModulo I lhs rhs)"
| "binary_operator I Shl (Strong lhs) (Numeric rhs) =
     Some (STRONG_INT_VS_NUMERIC_BINARY_OP Shl LeftShift_call I lhs rhs)"
| "binary_operator I Shr (Strong lhs) (Numeric rhs) =
     Some (STRONG_INT_VS_NUMERIC_BINARY_OP Shr RightShift_call I lhs rhs)"
| "binary_operator I op lhs rhs = None"

subsection \<open>Comparison operators\<close>

definition STRONG_INT_COMPARISON_OP ::
  "cmpop \<Rightarrow> 'a::len word strong_type \<Rightarrow> 'a word StrongInt \<Rightarrow> 'a word StrongInt
     \<Rightarrow> ('a word, bool) run" where
  "STRONG_INT_COMPARISON_OP op I lhs rhs =
     ret (native_compare op (native_value I (value_m lhs)) (native_value I (value_m rhs)))"

subsection \<open>Hashing\<close>

text \<open>
  \<open>Hasher::operator()\<close> is \<open>static_cast<size_t>(x.value())\<close>; \<open>std::hash\<close> of a
  StrongInt inherits it.
\<close>

definition Hasher :: "'a::len word strong_type \<Rightarrow> 'a word StrongInt \<Rightarrow> cval" where
  "Hasher I x = cast_to size_t (native_value I (value_m x))"

definition std_hash :: "'a::len word strong_type \<Rightarrow> 'a word StrongInt \<Rightarrow> cval" where
  "std_hash I x = Hasher I x"

subsection \<open>Stream output\<close>

text \<open>
  The stream is the text written so far. Inserting a number writes its decimal digits;
  the 8-bit types are the character types \<open>signed char\<close> and \<open>unsigned char\<close>, and
  inserting one of them writes the character with that code.
\<close>

fun digits :: "nat \<Rightarrow> string" where
  "digits n =
     (if n < 10 then [char_of (48 + n)]
      else digits (n div 10) @ [char_of (48 + n mod 10)])"

declare digits.simps [simp del]

definition decimal :: "int \<Rightarrow> string" where
  "decimal v = (if v < 0 then CHR ''-'' # digits (nat (- v)) else digits (nat v))"

definition ostream_insert :: "string \<Rightarrow> cval \<Rightarrow> string" where
  "ostream_insert os v =
     (if bits (type_of v) = 8 then os @ [char_of (int_of v)] else os @ decimal (int_of v))"

text \<open>The generic template and its two more specialised overloads.\<close>

definition stream_out_generic ::
  "string \<Rightarrow> 'a::len word strong_type \<Rightarrow> 'a word StrongInt \<Rightarrow> string" where
  "stream_out_generic os I arg = ostream_insert os (native_value I (value_m arg))"

definition stream_out_int8_t ::
  "string \<Rightarrow> 'a::len word strong_type \<Rightarrow> 'a word StrongInt \<Rightarrow> string" where
  "stream_out_int8_t os I arg =
     ostream_insert os (cast_to int_t (native_value I (value_m arg)))"

definition stream_out_uint8_t ::
  "string \<Rightarrow> 'a::len word strong_type \<Rightarrow> 'a word StrongInt \<Rightarrow> string" where
  "stream_out_uint8_t os I arg =
     ostream_insert os (cast_to unsigned_int_t (native_value I (value_m arg)))"

text \<open>
  \<open>os << arg\<close>: the most specialised overload that matches. The two specialised ones
  match only \<open>int8_t\<close> and \<open>uint8_t\<close> themselves; every other native type, plain
  \<open>char\<close> among them, takes the generic template.
\<close>

definition stream_out ::
  "string \<Rightarrow> 'a::len word strong_type \<Rightarrow> 'a word StrongInt \<Rightarrow> string" where
  "stream_out os I arg =
     (if NativeType_is I int8_t then stream_out_int8_t os I arg
      else if NativeType_is I uint8_t then stream_out_uint8_t os I arg
      else stream_out_generic os I arg)"

section \<open>StrongIntRange\<close>

record 'w StrongIntRangeIterator =
  current_m :: "'w StrongInt"

record 'w StrongIntRange =
  begin_m :: "'w StrongIntRangeIterator"
  end_m :: "'w StrongIntRangeIterator"

text \<open>\<open>operator!=\<close>, \<open>operator*\<close> and \<open>operator++\<close> of the iterator.\<close>

definition iterator_ne ::
  "'a::len word strong_type \<Rightarrow> 'a word StrongIntRangeIterator
     \<Rightarrow> 'a word StrongIntRangeIterator \<Rightarrow> ('a word, bool) run" where
  "iterator_ne I it other =
     STRONG_INT_COMPARISON_OP Ne I (current_m it) (current_m other)"

definition iterator_deref :: "'w StrongIntRangeIterator \<Rightarrow> 'w StrongInt" where
  "iterator_deref it = current_m it"

definition iterator_increment ::
  "'a::len word strong_type \<Rightarrow> 'a word StrongIntRangeIterator
     \<Rightarrow> ('a word, 'a word StrongIntRangeIterator) run" where
  "iterator_increment I it =
     and_then (pre_increment I (current_m it))
       (\<lambda>(x, r). ret \<lparr>current_m = x\<rparr>)"

text \<open>The two constructors; the first builds \<open>IntType(0)\<close> from the \<open>int\<close> zero.\<close>

definition StrongIntRange_end ::
  "'a::len word strong_type \<Rightarrow> 'a word StrongInt \<Rightarrow> ('a word, 'a word StrongIntRange) run" where
  "StrongIntRange_end I e =
     and_then (StrongInt_init I (CVal int_t 0))
       (\<lambda>z. ret \<lparr>begin_m = \<lparr>current_m = z\<rparr>, end_m = \<lparr>current_m = e\<rparr>\<rparr>)"

definition StrongIntRange_begin_end ::
  "'w StrongInt \<Rightarrow> 'w StrongInt \<Rightarrow> 'w StrongIntRange" where
  "StrongIntRange_begin_end b e = \<lparr>begin_m = \<lparr>current_m = b\<rparr>, end_m = \<lparr>current_m = e\<rparr>\<rparr>"

section \<open>Facts about the native operations\<close>

lemma static_cast_word:
  "static_cast (IntType sg LENGTH('a)) k =
     (if sg then sint (word_of_int k :: 'a::len word) else uint (word_of_int k :: 'a word))"
  by (simp add: static_cast_def sint_sbintrunc' uint_word_of_int take_bit_eq_mod)

lemma word_of_static_cast:
  "LENGTH('a) \<le> bits C \<Longrightarrow> (word_of_int (static_cast C k) :: 'a::len word) = word_of_int k"
  apply (simp add: static_cast_def word_of_int_eq_iff wi_bintr)
  apply (rule impI)
  apply (rule take_bit_signed_take_bit)
  apply simp
  done

lemma stored_native_value: "stored (native_value I w) = w"
  by (simp add: stored_def native_value_def)

lemma cast_to_ValueType:
  "cast_to (ValueType I) c = native_value I (word_of_int (int_of c))"
  by (simp add: cast_to_def ValueType_def native_value_def static_cast_word)

lemma bits_promote: "bits T \<le> bits (promote T)"
  by (simp add: promote_def int_t_def)

lemma common_type_same: "common_type T T = promote T"
  by (simp add: common_type_def Let_def)

lemma word_of_int_AND:
  "(word_of_int (k AND l) :: 'a::len word) = word_of_int k AND word_of_int l"
  by (rule bit_word_eqI) (simp add: bit_simps)

lemma word_of_int_OR:
  "(word_of_int (k OR l) :: 'a::len word) = word_of_int k OR word_of_int l"
  by (rule bit_word_eqI) (auto simp add: bit_simps)

lemma word_of_int_XOR:
  "(word_of_int (k XOR l) :: 'a::len word) = word_of_int k XOR word_of_int l"
  by (rule bit_word_eqI) (auto simp add: bit_simps)

lemma bits_promote_ValueType:
  "LENGTH('a) \<le> bits (promote (ValueType (I :: 'a::len word strong_type)))"
  using bits_promote [of "ValueType I"] by (simp add: ValueType_def)

lemma native_same_Add:
  "map_option (\<lambda>r. (word_of_int (int_of r) :: 'a::len word))
     (native_binop Add (native_value I a) (native_value I b)) = Some (a + b)"
  by (simp add: native_binop_def native_value_def common_type_same Let_def
      word_of_static_cast bits_promote_ValueType)

lemma native_same_Sub:
  "map_option (\<lambda>r. (word_of_int (int_of r) :: 'a::len word))
     (native_binop Sub (native_value I a) (native_value I b)) = Some (a - b)"
  by (simp add: native_binop_def native_value_def common_type_same Let_def
      word_of_static_cast bits_promote_ValueType)

lemma native_same_BitAnd:
  "map_option (\<lambda>r. (word_of_int (int_of r) :: 'a::len word))
     (native_binop BitAnd (native_value I a) (native_value I b)) = Some (a AND b)"
  by (simp add: native_binop_def native_value_def common_type_same Let_def
      word_of_static_cast bits_promote_ValueType word_of_int_AND)

lemma native_same_BitOr:
  "map_option (\<lambda>r. (word_of_int (int_of r) :: 'a::len word))
     (native_binop BitOr (native_value I a) (native_value I b)) = Some (a OR b)"
  by (simp add: native_binop_def native_value_def common_type_same Let_def
      word_of_static_cast bits_promote_ValueType word_of_int_OR)

lemma native_same_BitXor:
  "map_option (\<lambda>r. (word_of_int (int_of r) :: 'a::len word))
     (native_binop BitXor (native_value I a) (native_value I b)) = Some (a XOR b)"
  by (simp add: native_binop_def native_value_def common_type_same Let_def
      word_of_static_cast bits_promote_ValueType word_of_int_XOR)

lemma bits_common_type: "bits T \<le> bits (common_type T U)"
  by (auto simp add: common_type_def Let_def promote_def int_t_def)

lemma bits_common_ValueType:
  "LENGTH('a) \<le> bits (common_type (ValueType (I :: 'a::len word strong_type)) U)"
  using bits_common_type [of "ValueType I" U] by (simp add: ValueType_def)

lemma native_assign_Add_1: "native_assign Add I v (CVal int_t 1) = Some (v + 1)"
  by (simp add: native_assign_def native_binop_def native_value_def Let_def
      cast_to_ValueType stored_def word_of_static_cast bits_common_ValueType)

lemma native_assign_Sub_1: "native_assign Sub I v (CVal int_t 1) = Some (v - 1)"
  by (simp add: native_assign_def native_binop_def native_value_def Let_def
      cast_to_ValueType stored_def word_of_static_cast bits_common_ValueType)

lemma pre_increment_run:
  "pre_increment I x =
     ([ValidateAdd (value_m x) 1],
      case Validator I (ValidateAdd (value_m x) 1) of
        Continues \<Rightarrow> Returns (\<lparr>value_m = value_m x + 1\<rparr>, This)
      | Aborts \<Rightarrow> Aborted)"
  by (simp add: pre_increment_def native_assign_Add_1 and_then_def invoke_def ret_def builtin_def
      split: hook_effect.split)

lemma static_cast_promote_native:
  "static_cast (promote (ValueType I)) (int_of (native_value I (w :: 'a::len word))) =
     int_of (native_value I w)"
proof (cases "LENGTH('a) < 32")
  case False
  then have "promote (ValueType I) = IntType (NativeSigned I) LENGTH('a)"
    by (simp add: promote_def ValueType_def)
  then show ?thesis
    by (simp add: static_cast_word native_value_def)
next
  case True
  then have p: "promote (ValueType I) = IntType True 32"
    by (simp add: promote_def ValueType_def int_t_def)
  have "signed_take_bit (31::nat) k = k" if "- (2 ^ 31) \<le> k" "k < 2 ^ 31" for k :: int
    using that by (simp add: signed_take_bit_int_eq_self)
  moreover have "- (2 ^ 31) \<le> sint w" "sint w < 2 ^ 31"
  proof -
    have "(2::int) ^ (LENGTH('a) - 1) \<le> 2 ^ 31"
      using True by (intro power_increasing) auto
    then show "- (2 ^ 31) \<le> sint w" "sint w < 2 ^ 31"
      using sint_ge [of w] sint_lt [of w] by linarith+
  qed
  moreover have "- (2 ^ 31) \<le> uint w" "uint w < 2 ^ 31"
  proof -
    have "(2::int) ^ LENGTH('a) \<le> 2 ^ 31"
      using True by (intro power_increasing) auto
    then show "- (2 ^ 31) \<le> uint w" "uint w < 2 ^ 31"
      using uint_lt2p [of w] uint_ge_0 [of w] by linarith+
  qed
  ultimately show ?thesis
    by (simp add: p static_cast_def native_value_def)
qed

lemma native_compare_same:
  "native_compare op (native_value I a) (native_value I b) =
     (case op of
        Eq \<Rightarrow> int_of (native_value I a) = int_of (native_value I b)
      | Ne \<Rightarrow> int_of (native_value I a) \<noteq> int_of (native_value I b)
      | Lt \<Rightarrow> int_of (native_value I a) < int_of (native_value I b)
      | Le \<Rightarrow> int_of (native_value I a) \<le> int_of (native_value I b)
      | Gt \<Rightarrow> int_of (native_value I a) > int_of (native_value I b)
      | Ge \<Rightarrow> int_of (native_value I a) \<ge> int_of (native_value I b))"
proof -
  have t: "type_of (native_value I a) = ValueType I" "type_of (native_value I b) = ValueType I"
    by (simp_all add: native_value_def)
  show ?thesis
    unfolding native_compare_def t common_type_same Let_def static_cast_promote_native ..
qed

lemma int_of_native_value_eq_iff:
  "int_of (native_value I a) = int_of (native_value I b) \<longleftrightarrow> a = b"
proof
  assume "int_of (native_value I a) = int_of (native_value I b)"
  then have "(stored (native_value I a) :: 'a word) = stored (native_value I b)"
    by (simp add: stored_def)
  then show "a = b"
    by (simp add: stored_native_value)
qed simp

lemma and_then_cong [fundef_cong]:
  "m = m' \<Longrightarrow> (\<And>t r. m' = (t, Returns r) \<Longrightarrow> f r = f' r) \<Longrightarrow> and_then m f = and_then m' f'"
  by (auto simp add: and_then_def split: prod.split outcome.split)

lemma iterator_ne_run:
  "iterator_ne I it e = ([], Returns (value_m (current_m it) \<noteq> value_m (current_m e)))"
  by (simp add: iterator_ne_def STRONG_INT_COMPARISON_OP_def native_compare_same
      int_of_native_value_eq_iff ret_def)

lemma iterator_increment_run:
  "iterator_increment I it =
     ([ValidateAdd (value_m (current_m it)) 1],
      case Validator I (ValidateAdd (value_m (current_m it)) 1) of
        Continues \<Rightarrow> Returns \<lparr>current_m = \<lparr>value_m = value_m (current_m it) + 1\<rparr>\<rparr>
      | Aborts \<Rightarrow> Aborted)"
  by (simp add: iterator_increment_def pre_increment_run and_then_def ret_def
      split: hook_effect.split)

lemma unat_distance_decreases:
  "c \<noteq> e \<Longrightarrow> unat (e - (c + 1)) < unat (e - c)" for c e :: "'a::len word"
proof -
  assume "c \<noteq> e"
  then have nz: "e - c \<noteq> 0" by simp
  have eq: "e - (c + 1) = (e - c) - 1" by simp
  have "unat ((e - c) - 1) = unat (e - c) - 1"
    using nz by (rule unat_minus_one)
  moreover have "0 < unat (e - c)"
    using nz by (simp add: unat_gt_0)
  ultimately show ?thesis
    unfolding eq by linarith
qed

section \<open>Range-based for loop\<close>

text \<open>
  \<open>for (auto i : range)\<close> takes \<open>begin()\<close> and \<open>end()\<close> once, tests \<open>it != end\<close>
  before each round, binds \<open>i = *it\<close> and advances with \<open>++it\<close>. The result lists
  the values the loop variable takes.
\<close>

function for_range_loop ::
  "'a::len word strong_type \<Rightarrow> 'a word StrongIntRangeIterator
     \<Rightarrow> 'a word StrongIntRangeIterator \<Rightarrow> ('a word, 'a word StrongInt list) run" where
  "for_range_loop I it e =
     and_then (iterator_ne I it e)
       (\<lambda>go. if go then
           (let i = iterator_deref it in
            and_then (iterator_increment I it)
              (\<lambda>it'. and_then (for_range_loop I it' e) (\<lambda>rest. ret (i # rest))))
         else ret [])"
  by pat_completeness auto
termination
proof (relation "measure (\<lambda>(I, it, e). unat (value_m (current_m e) - value_m (current_m it)))")
  show "wf (measure (\<lambda>(I, it, e). unat (value_m (current_m e) - value_m (current_m it))))" by simp
next
  fix I :: "'a word strong_type" and it e t go t' and it' :: "'a word StrongIntRangeIterator"
  assume "iterator_ne I it e = (t, Returns go)" go "iterator_increment I it = (t', Returns it')"
  then show "((I, it', e), (I, it, e)) \<in> measure (\<lambda>(I, it, e). unat (value_m (current_m e) - value_m (current_m it)))"
    by (auto simp add: iterator_ne_run iterator_increment_run unat_distance_decreases split: hook_effect.splits)
qed

definition for_range ::
  "'a::len word strong_type \<Rightarrow> 'a word StrongIntRange \<Rightarrow> ('a word, 'a word StrongInt list) run" where
  "for_range I r = for_range_loop I (begin_m r) (end_m r)"

declare for_range_loop.simps [simp del]

section \<open>Facts about the operators\<close>

lemma NullStrongIntValidator_Continues: "NullStrongIntValidator h = Continues"
  by (cases h) simp_all

lemma word_of_int_native_value: "word_of_int (int_of (native_value I w)) = w"
  using stored_native_value [of I w] by (simp add: stored_def)

lemma native_value_wraps:
  "int_of (native_value I (word_of_int k)) = static_cast (ValueType I) k"
  by (simp add: native_value_def ValueType_def static_cast_word)

lemma wrap_add: "int_of (native_value I (a + b)) =
        static_cast (ValueType I) (int_of (native_value I a) + int_of (native_value I b))"
proof -
  have "a + b = word_of_int (int_of (native_value I a) + int_of (native_value I b))"
    by (simp add: native_value_def)
  then show ?thesis by (simp only: native_value_wraps)
qed

lemma wrap_sub: "int_of (native_value I (a - b)) =
        static_cast (ValueType I) (int_of (native_value I a) - int_of (native_value I b))"
proof -
  have "a - b = word_of_int (int_of (native_value I a) - int_of (native_value I b))"
    by (simp add: native_value_def)
  then show ?thesis by (simp only: native_value_wraps)
qed

lemma StrongInt_init_cast_run:
  "StrongInt_init I (cast_to (ValueType I) r) =
     ([ValidateInit (native_value I (word_of_int (int_of r)))],
      case Validator I (ValidateInit (native_value I (word_of_int (int_of r)))) of
        Continues \<Rightarrow> Returns \<lparr>value_m = word_of_int (int_of r)\<rparr>
      | Aborts \<Rightarrow> Aborted)"
  by (simp add: StrongInt_init_def cast_to_ValueType stored_def word_of_int_native_value
      and_then_def invoke_def ret_def split: hook_effect.split)

lemma StrongInt_init_native_run:
  "StrongInt_init I (native_value I a) =
     ([ValidateInit (native_value I a)],
      case Validator I (ValidateInit (native_value I a)) of
        Continues \<Rightarrow> Returns \<lparr>value_m = a\<rparr>
      | Aborts \<Rightarrow> Aborted)"
  by (simp add: StrongInt_init_def cast_to_ValueType stored_def word_of_int_native_value
      and_then_def invoke_def ret_def split: hook_effect.split)

lemma strong_vs_strong_run:
  assumes "map_option (\<lambda>r. (word_of_int (int_of r) :: 'a::len word))
     (native_binop op (native_value I a) (native_value I b)) = Some c"
  shows "STRONG_INT_VS_STRONG_INT_BINARY_OP op validator I \<lparr>value_m = a\<rparr> \<lparr>value_m = b\<rparr> =
     (case Validator I (validator a b) of
        Aborts \<Rightarrow> ([validator a b], Aborted)
      | Continues \<Rightarrow>
          ([validator a b, ValidateInit (native_value I c)],
           case Validator I (ValidateInit (native_value I c)) of
             Continues \<Rightarrow> Returns \<lparr>value_m = c\<rparr>
           | Aborts \<Rightarrow> Aborted))"
proof -
  from assms obtain r where r: "native_binop op (native_value I a) (native_value I b) = Some r"
    and c: "word_of_int (int_of r) = c"
    by auto
  show ?thesis
    by (simp add: STRONG_INT_VS_STRONG_INT_BINARY_OP_def r c StrongInt_init_cast_run
        and_then_def invoke_def builtin_def split: hook_effect.split)
qed

lemmas strong_vs_strong_runs =
  strong_vs_strong_run [OF native_same_Add] strong_vs_strong_run [OF native_same_Sub]
  strong_vs_strong_run [OF native_same_BitAnd] strong_vs_strong_run [OF native_same_BitOr]
  strong_vs_strong_run [OF native_same_BitXor]

lemma strong_vs_numeric_run:
  "STRONG_INT_VS_NUMERIC_BINARY_OP op validator I x n =
     (case Validator I (validator (value_m x) n) of
        Aborts \<Rightarrow> ([validator (value_m x) n], Aborted)
      | Continues \<Rightarrow>
          (case native_binop op (native_value I (value_m x)) n of
             None \<Rightarrow> ([validator (value_m x) n], Undefined)
           | Some r \<Rightarrow>
               ([validator (value_m x) n, ValidateInit (native_value I (word_of_int (int_of r)))],
                case Validator I (ValidateInit (native_value I (word_of_int (int_of r)))) of
                  Continues \<Rightarrow> Returns \<lparr>value_m = word_of_int (int_of r)\<rparr>
                | Aborts \<Rightarrow> Aborted)))"
  by (simp add: STRONG_INT_VS_NUMERIC_BINARY_OP_def StrongInt_init_cast_run
      and_then_def invoke_def builtin_def split: hook_effect.split option.split)

lemma numeric_vs_strong_commutes:
  "NUMERIC_VS_STRONG_INT_BINARY_OP op validator I n x =
     STRONG_INT_VS_NUMERIC_BINARY_OP op validator I x n"
  by (simp add: NUMERIC_VS_STRONG_INT_BINARY_OP_def STRONG_INT_VS_NUMERIC_BINARY_OP_def)

lemma strong_vs_numeric_value:
  "\<exists>t res. STRONG_INT_VS_NUMERIC_BINARY_OP op validator I x n = (t, res) \<and>
      hd t = validator (value_m x) n \<and>
      ((\<forall>h \<in> set t. Validator I h = Continues) \<longrightarrow>
         res = (case native_binop op (native_value I (value_m x)) n of
                  Some r \<Rightarrow> Returns \<lparr>value_m = word_of_int (int_of r)\<rparr>
                | None \<Rightarrow> Undefined))"
  by (simp add: strong_vs_numeric_run split: hook_effect.split option.split)

lemma type_of_native_value: "type_of (native_value I v) = ValueType I"
  by (simp add: native_value_def)

lemma native_Mul_word:
  "map_option (\<lambda>r. (word_of_int (int_of r) :: 'a::len word))
     (native_binop Mul (native_value I v) n) = Some (v * word_of_int (int_of n))"
  by (simp add: native_binop_def Let_def word_of_static_cast bits_common_ValueType
      native_value_def wi_hom_syms)

lemma native_Div_value:
  assumes "C = common_type (ValueType I) (type_of n)"
    and "a = static_cast C (int_of (native_value I v))"
    and "m = static_cast C (int_of n)"
    and "m \<noteq> 0" and "static_cast C (a sdiv m) = a sdiv m"
  shows "native_binop Div (native_value I v) n = Some (CVal C (a sdiv m))"
  using assms by (simp add: native_binop_def Let_def type_of_native_value)

lemma native_Mod_value:
  assumes "C = common_type (ValueType I) (type_of n)"
    and "a = static_cast C (int_of (native_value I v))"
    and "m = static_cast C (int_of n)"
    and "m \<noteq> 0" and "static_cast C (a sdiv m) = a sdiv m"
  shows "native_binop Mod (native_value I v) n = Some (CVal C (a smod m))"
  using assms by (simp add: native_binop_def Let_def type_of_native_value)

lemma native_Shl_word:
  assumes "0 \<le> int_of n" "int_of n < int (bits (promote (ValueType I)))"
  shows "map_option (\<lambda>r. (word_of_int (int_of r) :: 'a::len word))
     (native_binop Shl (native_value I v) n) = Some (push_bit (nat (int_of n)) v)"
proof -
  have "(word_of_int (push_bit (nat (int_of n)) (int_of (native_value I v))) :: 'a word) =
      push_bit (nat (int_of n)) v"
    by (simp add: push_bit_eq_mult wi_hom_syms word_of_int_native_value)
  then show ?thesis
    using assms
    by (simp add: native_binop_def Let_def type_of_native_value word_of_static_cast
        bits_promote_ValueType)
qed

lemma word_of_drop_bit_native:
  "(word_of_int (drop_bit k (int_of (native_value I v))) :: 'a::len word) =
     (if NativeSigned I then signed_drop_bit k v else drop_bit k v)"
proof (cases "NativeSigned I")
  case True
  have "(word_of_int (drop_bit k (sint v)) :: 'a word) = word_of_int (sint (signed_drop_bit k v))"
    by (simp only: sint_signed_drop_bit_eq)
  then show ?thesis using True by (simp add: native_value_def)
next
  case False
  have "uint (drop_bit k v) = drop_bit k (uint v)"
    by (simp add: unsigned_drop_bit_eq take_bit_int_eq_self uint_lt2p)
  then have "(word_of_int (drop_bit k (uint v)) :: 'a word) = drop_bit k v"
    by (metis word_of_int_uint)
  then show ?thesis using False by (simp add: native_value_def)
qed

lemma native_Shr_word:
  assumes "0 \<le> int_of n" "int_of n < int (bits (promote (ValueType I)))"
  shows "map_option (\<lambda>r. (word_of_int (int_of r) :: 'a::len word))
     (native_binop Shr (native_value I v) n) =
       Some (if NativeSigned I then signed_drop_bit (nat (int_of n)) v
             else drop_bit (nat (int_of n)) v)"
  using assms
  by (simp add: native_binop_def Let_def type_of_native_value word_of_drop_bit_native
      del: drop_bit_int_def)

lemma strong_vs_numeric_produces:
  assumes "native_binop op (native_value I v) n = Some r"
    and "Validator I (validator v n) = Continues"
    and "Validator I (ValidateInit (native_value I (word_of_int (int_of r)))) = Continues"
  shows "STRONG_INT_VS_NUMERIC_BINARY_OP op validator I \<lparr>value_m = v\<rparr> n =
     ([validator v n, ValidateInit (native_value I (word_of_int (int_of r)))],
      Returns \<lparr>value_m = word_of_int (int_of r)\<rparr>)"
  using assms by (simp add: strong_vs_numeric_run)

lemma numeric_times_strong_run:
  assumes "Validator I (ValidateMultiply v n) = Continues"
    and "Validator I (ValidateInit (native_value I (v * word_of_int (int_of n)))) = Continues"
  shows "NUMERIC_VS_STRONG_INT_BINARY_OP Mul ValidateMultiply I n \<lparr>value_m = v\<rparr> =
     ([ValidateMultiply v n, ValidateInit (native_value I (v * word_of_int (int_of n)))],
      Returns \<lparr>value_m = v * word_of_int (int_of n)\<rparr>)"
proof -
  from native_Mul_word [of I v n] obtain r
    where r: "native_binop Mul (native_value I v) n = Some r"
      and w: "(word_of_int (int_of r) :: 'a word) = v * word_of_int (int_of n)"
    by auto
  show ?thesis
    using strong_vs_numeric_produces [of Mul I v n r ValidateMultiply] r assms
    by (simp add: numeric_vs_strong_commutes w)
qed

section \<open>Facts about the range loop\<close>

lemma loop_stop:
  "for_range_loop I \<lparr>current_m = \<lparr>value_m = e\<rparr>\<rparr> \<lparr>current_m = \<lparr>value_m = e\<rparr>\<rparr> = ([], Returns [])"
  by (simp add: for_range_loop.simps [of I "\<lparr>current_m = \<lparr>value_m = e\<rparr>\<rparr>"] iterator_ne_run and_then_def ret_def)

lemma loop_step:
  assumes "c \<noteq> e"
  shows "for_range_loop I \<lparr>current_m = \<lparr>value_m = c\<rparr>\<rparr> \<lparr>current_m = \<lparr>value_m = e\<rparr>\<rparr> =
     (case Validator I (ValidateAdd c 1) of
        Aborts \<Rightarrow> ([ValidateAdd c 1], Aborted)
      | Continues \<Rightarrow>
          (case for_range_loop I \<lparr>current_m = \<lparr>value_m = c + 1\<rparr>\<rparr> \<lparr>current_m = \<lparr>value_m = e\<rparr>\<rparr> of
             (t, Returns rest) \<Rightarrow> (ValidateAdd c 1 # t, Returns (\<lparr>value_m = c\<rparr> # rest))
           | (t, Aborted) \<Rightarrow> (ValidateAdd c 1 # t, Aborted)
           | (t, Undefined) \<Rightarrow> (ValidateAdd c 1 # t, Undefined)))"
  using assms
  by (subst for_range_loop.simps)
    (simp add: iterator_ne_run iterator_increment_run iterator_deref_def and_then_def ret_def
      split: hook_effect.split prod.split outcome.split)

lemma for_range_loop_run:
  assumes V: "\<forall>v. Validator I (ValidateAdd v 1) = Continues"
  shows "unat (e - c) = n \<Longrightarrow>
     for_range_loop I \<lparr>current_m = \<lparr>value_m = c\<rparr>\<rparr> \<lparr>current_m = \<lparr>value_m = e\<rparr>\<rparr> =
       (map (\<lambda>k. ValidateAdd (c + of_nat k) 1) [0..<n],
        Returns (map (\<lambda>k. \<lparr>value_m = c + of_nat k\<rparr>) [0..<n]))"
proof (induction n arbitrary: c)
  case 0
  then have "c = e" by (simp add: unat_eq_0)
  then show ?case by (simp add: loop_stop)
next
  case (Suc n)
  then have ne: "c \<noteq> e" by auto
  have eq: "e - (c + 1) = e - c - 1" by simp
  have "unat (e - c - 1) = unat (e - c) - 1"
    using ne by (intro unat_minus_one) simp
  then have n: "unat (e - (c + 1)) = n"
    unfolding eq using Suc.prems by simp
  have shift: "map f [0..<Suc n] = f 0 # map (\<lambda>k. f (Suc k)) [0..<n]" for f :: "nat \<Rightarrow> 'b"
    by (simp add: upt_conv_Cons map_Suc_upt [symmetric] del: upt_Suc)
  show ?case
    unfolding loop_step [OF ne] Suc.IH [OF n] shift
    using V by (simp add: add.assoc)
qed

lemma for_range_run:
  assumes "\<forall>v. Validator I (ValidateAdd v 1) = Continues"
  shows "for_range I (StrongIntRange_begin_end \<lparr>value_m = b\<rparr> \<lparr>value_m = e\<rparr>) =
       (map (\<lambda>k. ValidateAdd (b + of_nat k) 1) [0..<unat (e - b)],
        Returns (map (\<lambda>k. \<lparr>value_m = b + of_nat k\<rparr>) [0..<unat (e - b)]))"
  using for_range_loop_run [OF assms refl]
  by (simp add: for_range_def StrongIntRange_begin_end_def)

lemma StrongIntRange_end_run:
  "StrongIntRange_end I e =
     ([ValidateInit (CVal int_t 0)],
      case Validator I (ValidateInit (CVal int_t 0)) of
        Continues \<Rightarrow> Returns (StrongIntRange_begin_end \<lparr>value_m = 0\<rparr> e)
      | Aborts \<Rightarrow> Aborted)"
  by (simp add: StrongIntRange_end_def StrongIntRange_begin_end_def StrongInt_init_def
      cast_to_def stored_def static_cast_def and_then_def invoke_def ret_def
      split: hook_effect.split)

lemma word_diff_native:
  "e - b = (word_of_int (int_of (native_value I e) - int_of (native_value I b)) :: 'a::len word)"
  by (simp add: native_value_def)

lemma unat_distance:
  "int (unat (e - b)) =
     (int_of (native_value I e) - int_of (native_value I (b :: 'a::len word))) mod 2 ^ LENGTH('a)"
proof -
  let ?d = "int_of (native_value I e) - int_of (native_value I b)"
  have "uint (e - b) = uint (word_of_int ?d :: 'a word)"
    by (rule arg_cong [OF word_diff_native])
  also have "\<dots> = ?d mod 2 ^ LENGTH('a)"
    by (simp only: uint_word_of_int)
  finally show ?thesis by simp
qed

lemma static_cast_between:
  assumes "int_of (native_value I (b :: 'a::len word)) \<le> m" "m \<le> int_of (native_value I (e :: 'a word))"
  shows "static_cast (ValueType I) m = m"
proof (cases "NativeSigned I")
  case True
  then have "sint b \<le> m" "m \<le> sint e"
    using assms by (simp_all add: native_value_def)
  then have "- (2 ^ (LENGTH('a) - 1)) \<le> m" "m < 2 ^ (LENGTH('a) - 1)"
    using sint_ge [of b] sint_lt [of e] by linarith+
  then show ?thesis
    using True by (simp add: static_cast_def ValueType_def signed_take_bit_int_eq_self)
next
  case False
  then have "uint b \<le> m" "m \<le> uint e"
    using assms by (simp_all add: native_value_def)
  then have "0 \<le> m" "m < 2 ^ LENGTH('a)"
    using uint_ge_0 [of b] uint_lt2p [of e] by linarith+
  then show ?thesis
    using False by (simp add: static_cast_def ValueType_def take_bit_int_eq_self)
qed

lemma native_value_add_of_nat:
  assumes "int_of (native_value I b) + int k \<le> int_of (native_value I (e :: 'a::len word))"
  shows "int_of (native_value I (b + of_nat k)) = int_of (native_value I b) + int k"
proof -
  have "b + of_nat k = word_of_int (int_of (native_value I b) + int k)"
    by (simp add: native_value_def)
  then have "int_of (native_value I (b + of_nat k)) =
      static_cast (ValueType I) (int_of (native_value I b) + int k)"
    by (simp only: native_value_wraps)
  also have "\<dots> = int_of (native_value I b) + int k"
    using assms by (intro static_cast_between [of I b _ e]) simp_all
  finally show ?thesis .
qed

lemma native_distance_le:
  "int_of (native_value I (e :: 'a::len word)) - int_of (native_value I (b :: 'a word)) < 2 ^ LENGTH('a)"
proof (cases "NativeSigned I")
  case True
  have "(2::int) ^ LENGTH('a) = 2 * 2 ^ (LENGTH('a) - 1)"
    by (cases "LENGTH('a)") simp_all
  then show ?thesis
    using True sint_ge [of b] sint_lt [of e] by (simp add: native_value_def)
next
  case False
  then show ?thesis
    using uint_ge_0 [of b] uint_lt2p [of e] by (simp add: native_value_def)
qed

lemma unat_distance_ordered:
  assumes "int_of (native_value I b) \<le> int_of (native_value I (e :: 'a::len word))"
  shows "int (unat (e - b)) = int_of (native_value I e) - int_of (native_value I b)"
proof -
  let ?d = "int_of (native_value I e) - int_of (native_value I b)"
  have "?d mod 2 ^ LENGTH('a) = ?d"
    using assms native_distance_le [of I e b] by (intro mod_pos_pos_trivial) simp_all
  then show ?thesis
    by (simp only: unat_distance [of e b I])
qed

lemma upto_as_map: "[i..i + int n - 1] = map (\<lambda>k. i + int k) [0..<n]"
proof (induction n)
  case 0
  then show ?case by simp
next
  case (Suc n)
  have "[i..i + int (Suc n) - 1] = [i..i + int n - 1] @ [i + int n]"
    by (simp add: upto_rec2)
  then show ?case using Suc.IH by simp
qed

lemma range_values_ordered:
  assumes "int_of (native_value I b) \<le> int_of (native_value I (e :: 'a::len word))"
  shows "map (\<lambda>x. int_of (native_value I (value_m x)))
           (map (\<lambda>k. \<lparr>value_m = b + of_nat k\<rparr>) [0..<unat (e - b)]) =
         [int_of (native_value I b)..int_of (native_value I e) - 1]"
proof -
  let ?nb = "int_of (native_value I b)" and ?ne = "int_of (native_value I e)"
  have n: "int (unat (e - b)) = ?ne - ?nb"
    using assms by (rule unat_distance_ordered)
  have "int_of (native_value I (b + of_nat k)) = ?nb + int k" if "k < unat (e - b)" for k
    using that n by (intro native_value_add_of_nat [of I b k e]) linarith
  then have "map (\<lambda>x. int_of (native_value I (value_m x)))
           (map (\<lambda>k. \<lparr>value_m = b + of_nat k\<rparr>) [0..<unat (e - b)]) =
         map (\<lambda>k. ?nb + int k) [0..<unat (e - b)]"
    by simp
  also have "\<dots> = [?nb..?nb + int (unat (e - b)) - 1]"
    by (rule upto_as_map [symmetric])
  also have "?nb + int (unat (e - b)) - 1 = ?ne - 1"
    using n by simp
  finally show ?thesis .
qed

section \<open>Facts about stream output\<close>

lemma int8_uint8_width:
  fixes I :: "'a::len word strong_type"
  assumes "NativeType_is I int8_t \<or> NativeType_is I uint8_t"
  shows "LENGTH('a) = 8" and "NativePlainChar I = False"
    and "NativeSigned I \<Longrightarrow> NativeType_is I int8_t"
    and "\<not> NativeSigned I \<Longrightarrow> NativeType_is I uint8_t"
  using assms
  by (auto simp add: NativeType_is_def ValueType_def int8_t_def uint8_t_def split: if_splits)

lemma static_cast_int_t_of_8:
  assumes "LENGTH('a) = 8"
  shows "static_cast int_t (sint (w :: 'a::len word)) = sint w"
proof -
  have "- (2 ^ 31) \<le> sint w" "sint w < 2 ^ 31"
    using sint_ge [of w] sint_lt [of w] assms by simp_all
  then show ?thesis
    by (simp add: static_cast_def int_t_def signed_take_bit_int_eq_self)
qed

lemma static_cast_unsigned_int_t_of_8:
  assumes "LENGTH('a) = 8"
  shows "static_cast unsigned_int_t (uint (w :: 'a::len word)) = uint w"
proof -
  have "0 \<le> uint w" "uint w < 2 ^ 32"
    using uint_ge_0 [of w] uint_lt2p [of w] assms by simp_all
  then show ?thesis
    by (simp add: static_cast_def unsigned_int_t_def take_bit_int_eq_self)
qed

lemma native_65:
  assumes "LENGTH('a) = 8"
  shows "int_of (native_value I (65 :: 'a::len word)) = 65"
proof -
  have "65 = (word_of_int 65 :: 'a word)" by simp
  then have "int_of (native_value I (65 :: 'a word)) = static_cast (ValueType I) 65"
    using native_value_wraps [of I 65] by simp
  also have "\<dots> = 65"
    using assms by (simp add: static_cast_def ValueType_def)
  finally show ?thesis .
qed

lemma generic_template_writes_glyph:
  "stream_out_generic os I \<lparr>value_m = 65 :: 8 word\<rparr> = os @ ''A''"
  by (simp add: stream_out_generic_def ostream_insert_def native_value_def ValueType_def char_of_def)

section \<open>Construction\<close>

text \<open>
  C6. The default constructor calls the validator's \<open>ValidateInit\<close> with the native
  zero, and nothing else. If the call comes back, the new instance holds zero; if the
  validator aborts there, no instance is made, so a validator can reject the default
  value.
\<close>

theorem default_constructor_init_hook_then_zero:
  "StrongInt_default I =
     ([ValidateInit (CVal (ValueType I) 0)],
      case Validator I (ValidateInit (CVal (ValueType I) 0)) of
        Continues \<Rightarrow> Returns \<lparr>value_m = 0\<rparr>
      | Aborts \<Rightarrow> Aborted)"
  by (simp add: StrongInt_default_def native_value_def and_then_def invoke_def ret_def
      split: hook_effect.split)

text \<open>
  For C6: a default-validated \<open>int64_t\<close> type starts at zero; a validator that wants
  positive values aborts the default construction of an \<open>int\<close> type.
\<close>

theorem default_constructor_init_hook_then_zero_witness:
  "StrongInt_default \<lparr>TypeName = ''Bytes'', NativeSigned = True, NativePlainChar = False,
       Validator = (NullStrongIntValidator :: 64 word validator)\<rparr> =
     ([ValidateInit (CVal int64_t 0)], Returns \<lparr>value_m = 0\<rparr>) \<and>
   StrongInt_default \<lparr>TypeName = ''Positive'', NativeSigned = True, NativePlainChar = False,
       Validator = (\<lambda>h :: 32 word hook_call. case h of
          ValidateInit arg \<Rightarrow> if int_of arg < 1 then Aborts else Continues
        | _ \<Rightarrow> Continues)\<rparr> =
     ([ValidateInit (CVal int_t 0)], Aborted)"
  by (simp add: default_constructor_init_hook_then_zero ValueType_def int64_t_def int_t_def)

section \<open>Increment and decrement\<close>

text \<open>
  C4. On an instance holding \<open>v\<close>, \<open>++x\<close> calls \<open>ValidateAdd\<close> with \<open>(v, 1)\<close>, leaves
  \<open>v + 1\<close> in the instance and returns a reference to it, through which \<open>v + 1\<close> is
  read. \<open>x++\<close> makes the same call and leaves \<open>v + 1\<close>, but returns a temporary holding
  \<open>v\<close>. \<open>--x\<close> and \<open>x--\<close> do the same with \<open>ValidateSubtract\<close> and \<open>v - 1\<close>. When
  the validator aborts, the instance is not changed and nothing is returned.
\<close>

theorem increment_decrement_hook_mutation_result:
  "pre_increment I \<lparr>value_m = v\<rparr> =
     ([ValidateAdd v 1],
      case Validator I (ValidateAdd v 1) of
        Continues \<Rightarrow> Returns (\<lparr>value_m = v + 1\<rparr>, This) | Aborts \<Rightarrow> Aborted) \<and>
   post_increment I \<lparr>value_m = v\<rparr> =
     ([ValidateAdd v 1],
      case Validator I (ValidateAdd v 1) of
        Continues \<Rightarrow> Returns (\<lparr>value_m = v + 1\<rparr>, Temp \<lparr>value_m = v\<rparr>) | Aborts \<Rightarrow> Aborted) \<and>
   pre_decrement I \<lparr>value_m = v\<rparr> =
     ([ValidateSubtract v 1],
      case Validator I (ValidateSubtract v 1) of
        Continues \<Rightarrow> Returns (\<lparr>value_m = v - 1\<rparr>, This) | Aborts \<Rightarrow> Aborted) \<and>
   post_decrement I \<lparr>value_m = v\<rparr> =
     ([ValidateSubtract v 1],
      case Validator I (ValidateSubtract v 1) of
        Continues \<Rightarrow> Returns (\<lparr>value_m = v - 1\<rparr>, Temp \<lparr>value_m = v\<rparr>) | Aborts \<Rightarrow> Aborted) \<and>
   value_m (deref \<lparr>value_m = v + 1\<rparr> This) = v + 1 \<and>
   value_m (deref \<lparr>value_m = v + 1\<rparr> (Temp \<lparr>value_m = v\<rparr>)) = v \<and>
   value_m (deref \<lparr>value_m = v - 1\<rparr> This) = v - 1 \<and>
   value_m (deref \<lparr>value_m = v - 1\<rparr> (Temp \<lparr>value_m = v\<rparr>)) = v"
  by (simp add: pre_increment_def post_increment_def pre_decrement_def post_decrement_def
      native_assign_Add_1 native_assign_Sub_1 and_then_def invoke_def ret_def builtin_def
      split: hook_effect.split)

text \<open>
  For C4: on an \<open>uint8_t\<close> type, 41 goes to 42 (the post-increment returning 41), 0
  decrements to 255, and an overflow-checking validator aborts \<open>x++\<close> at 255.
\<close>

theorem increment_decrement_hook_mutation_result_witness:
  "pre_increment \<lparr>TypeName = ''Index'', NativeSigned = False, NativePlainChar = False,
       Validator = (NullStrongIntValidator :: 8 word validator)\<rparr> \<lparr>value_m = 41\<rparr> =
     ([ValidateAdd 41 1], Returns (\<lparr>value_m = 42\<rparr>, This)) \<and>
   post_increment \<lparr>TypeName = ''Index'', NativeSigned = False, NativePlainChar = False,
       Validator = (NullStrongIntValidator :: 8 word validator)\<rparr> \<lparr>value_m = 41\<rparr> =
     ([ValidateAdd 41 1], Returns (\<lparr>value_m = 42\<rparr>, Temp \<lparr>value_m = 41\<rparr>)) \<and>
   pre_decrement \<lparr>TypeName = ''Index'', NativeSigned = False, NativePlainChar = False,
       Validator = (NullStrongIntValidator :: 8 word validator)\<rparr> \<lparr>value_m = 0\<rparr> =
     ([ValidateSubtract 0 1], Returns (\<lparr>value_m = 255\<rparr>, This)) \<and>
   post_increment \<lparr>TypeName = ''Checked'', NativeSigned = False, NativePlainChar = False,
       Validator = (\<lambda>h :: 8 word hook_call. case h of
          ValidateAdd l r \<Rightarrow> if uint l + uint r < 256 then Continues else Aborts
        | _ \<Rightarrow> Continues)\<rparr> \<lparr>value_m = 255\<rparr> =
     ([ValidateAdd 255 1], Aborted)"
  using increment_decrement_hook_mutation_result [of "\<lparr>TypeName = ''Index'', NativeSigned = False, NativePlainChar = False,
       Validator = (NullStrongIntValidator :: 8 word validator)\<rparr>" 41]
    increment_decrement_hook_mutation_result [of "\<lparr>TypeName = ''Index'', NativeSigned = False, NativePlainChar = False,
       Validator = (NullStrongIntValidator :: 8 word validator)\<rparr>" 0]
    increment_decrement_hook_mutation_result [of "\<lparr>TypeName = ''Checked'', NativeSigned = False, NativePlainChar = False,
       Validator = (\<lambda>h :: 8 word hook_call. case h of
          ValidateAdd l r \<Rightarrow> if uint l + uint r < 256 then Continues else Aborts
        | _ \<Rightarrow> Continues)\<rparr>" 255]
  by simp

section \<open>Binary operators\<close>

text \<open>
  C3. With the default validator, \<open>StrongInt(a)\<close> holds \<open>a\<close>, and \<open>+\<close>, \<open>-\<close>, \<open>&\<close>,
  \<open>|\<close> and \<open>^\<close> on two instances of one instantiation call the operator's validation
  function on the two stored values, then \<open>ValidateInit\<close> on the result, and return a
  new instance holding the word sum, difference, conjunction, disjunction or exclusive
  disjunction. The word sum and difference denote the mathematical sum and difference of
  the native values reduced modulo \<open>2 ^ w\<close> into the native type. For every validator the
  operator's validation call comes first: if it aborts, nothing else happens.
\<close>

theorem same_type_binary_operators_wrap:
  "(Validator I = NullStrongIntValidator \<longrightarrow>
      StrongInt_init I (native_value I a) =
        ([ValidateInit (native_value I a)], Returns \<lparr>value_m = a\<rparr>)) \<and>
   (\<forall>(op, hook, f) \<in> set [(Add, ValidateAdd, (+)), (Sub, ValidateSubtract, (-)),
        (BitAnd, ValidateBitAnd, (AND)), (BitOr, ValidateBitOr, (OR)),
        (BitXor, ValidateBitXor, (XOR))].
     (Validator I = NullStrongIntValidator \<longrightarrow>
        binary_operator I op (Strong \<lparr>value_m = a\<rparr>) (Strong \<lparr>value_m = b\<rparr>) =
          Some ([hook a b, ValidateInit (native_value I (f a b))],
                Returns \<lparr>value_m = f a (b :: 'a::len word)\<rparr>)) \<and>
     (Validator I (hook a b) = Aborts \<longrightarrow>
        binary_operator I op (Strong \<lparr>value_m = a\<rparr>) (Strong \<lparr>value_m = b\<rparr>) =
          Some ([hook a b], Aborted))) \<and>
   int_of (native_value I (a + b)) =
     static_cast (ValueType I) (int_of (native_value I a) + int_of (native_value I b)) \<and>
   int_of (native_value I (a - b)) =
     static_cast (ValueType I) (int_of (native_value I a) - int_of (native_value I b))"
  using wrap_add [of I a b] wrap_sub [of I a b]
  by (simp add: strong_vs_strong_runs StrongInt_init_native_run)

text \<open>
  For C3: on a default-validated \<open>int8_t\<close> type, 127 + 1 is -128; an overflow-checking
  validator aborts 255 + 1 on an \<open>uint8_t\<close> type before any addition.
\<close>

theorem same_type_binary_operators_wrap_witness:
  "binary_operator \<lparr>TypeName = ''Small'', NativeSigned = True, NativePlainChar = False,
       Validator = (NullStrongIntValidator :: 8 word validator)\<rparr>
     Add (Strong \<lparr>value_m = 127\<rparr>) (Strong \<lparr>value_m = 1\<rparr>) =
     Some ([ValidateAdd 127 1, ValidateInit (CVal int8_t (- 128))], Returns \<lparr>value_m = 128\<rparr>) \<and>
   binary_operator \<lparr>TypeName = ''Checked'', NativeSigned = False, NativePlainChar = False,
       Validator = (\<lambda>h :: 8 word hook_call. case h of
          ValidateAdd l r \<Rightarrow> if uint l + uint r < 256 then Continues else Aborts
        | _ \<Rightarrow> Continues)\<rparr>
     Add (Strong \<lparr>value_m = 255\<rparr>) (Strong \<lparr>value_m = 1\<rparr>) =
     Some ([ValidateAdd 255 1], Aborted)"
  using same_type_binary_operators_wrap [of "\<lparr>TypeName = ''Small'', NativeSigned = True, NativePlainChar = False,
       Validator = (NullStrongIntValidator :: 8 word validator)\<rparr>" 127 1]
    same_type_binary_operators_wrap [of "\<lparr>TypeName = ''Checked'', NativeSigned = False, NativePlainChar = False,
       Validator = (\<lambda>h :: 8 word hook_call. case h of
          ValidateAdd l r \<Rightarrow> if uint l + uint r < 256 then Continues else Aborts
        | _ \<Rightarrow> Continues)\<rparr>" 255 1]
  by (simp add: native_value_def ValueType_def int8_t_def)

text \<open>
  C1, as stated, fails: \<open>x / 0\<close> has an operator, but the built-in division has no value
  and no StrongInt comes out of it.
\<close>

theorem division_by_zero_counterexample:
  "binary_operator \<lparr>TypeName = ''Id'', NativeSigned = True, NativePlainChar = False,
       Validator = (NullStrongIntValidator :: 32 word validator)\<rparr>
     Div (Strong \<lparr>value_m = 7\<rparr>) (Numeric (CVal int_t 0)) =
     Some ([ValidateDivide 7 (CVal int_t 0)], Undefined)"
  by (simp add: strong_vs_numeric_run native_binop_def native_value_def Let_def
      static_cast_def common_type_def promote_def ValueType_def int_t_def)

text \<open>
  C1, amended. Let \<open>n\<close> be an integer operand. Each of \<open>x * n\<close>, \<open>x / n\<close>, \<open>x % n\<close>,
  \<open>x << n\<close> and \<open>x >> n\<close> has an operator; when the built-in \<open>x.value() op n\<close> has a value
  and neither the operator's validation call on \<open>(x.value(), n)\<close> nor the constructor's
  \<open>ValidateInit\<close> aborts, it makes these two calls and returns a new StrongInt of the
  same instantiation holding that value cast to the native type. The built-in has a value
  as follows. \<open>*\<close>: always, the word product of \<open>x.value()\<close> and \<open>n\<close>. \<open>/\<close> and \<open>%\<close>: when
  \<open>n\<close>, converted to the common type, is not zero and the quotient is a value of that
  type; the quotient and the remainder of the converted operands, truncated towards zero.
  \<open><<\<close> and \<open>>>\<close>: when \<open>0 <= n\<close> and \<open>n\<close> is below the width of the promoted native type;
  the word shifted left, or shifted right arithmetically for a signed and logically for an
  unsigned native type. \<open>n * x\<close> has an operator as well and runs exactly as \<open>x * n\<close>; no
  other operator takes the integer on the left.
\<close>

theorem numeric_operand_operators_where_defined:
  fixes I :: "'a::len word strong_type" and v :: "'a word" and n :: cval
  assumes "C = common_type (ValueType I) (type_of n)"
    and "a = static_cast C (int_of (native_value I v))"
    and "m = static_cast C (int_of n)"
    and "k = nat (int_of n)"
  shows
  "(\<forall>(op, hook) \<in> set [(Mul, ValidateMultiply), (Div, ValidateDivide),
        (Mod, ValidateModulo), (Shl, LeftShift_call), (Shr, RightShift_call)].
      \<forall>r. native_binop op (native_value I v) n = Some r \<and>
          Validator I (hook v n) = Continues \<and>
          Validator I (ValidateInit (native_value I (word_of_int (int_of r)))) = Continues \<longrightarrow>
        binary_operator I op (Strong \<lparr>value_m = v\<rparr>) (Numeric n) =
          Some ([hook v n, ValidateInit (native_value I (word_of_int (int_of r)))],
                Returns \<lparr>value_m = word_of_int (int_of r)\<rparr>)) \<and>
   map_option (\<lambda>r. (word_of_int (int_of r) :: 'a word))
     (native_binop Mul (native_value I v) n) = Some (v * word_of_int (int_of n)) \<and>
   (m \<noteq> 0 \<and> static_cast C (a sdiv m) = a sdiv m \<longrightarrow>
      native_binop Div (native_value I v) n = Some (CVal C (a sdiv m)) \<and>
      native_binop Mod (native_value I v) n = Some (CVal C (a smod m))) \<and>
   (0 \<le> int_of n \<and> int_of n < int (bits (promote (ValueType I))) \<longrightarrow>
      map_option (\<lambda>r. (word_of_int (int_of r) :: 'a word))
        (native_binop Shl (native_value I v) n) = Some (push_bit k v) \<and>
      map_option (\<lambda>r. (word_of_int (int_of r) :: 'a word))
        (native_binop Shr (native_value I v) n) =
          Some (if NativeSigned I then signed_drop_bit k v else drop_bit k v)) \<and>
   binary_operator I Mul (Numeric n) (Strong \<lparr>value_m = v\<rparr>) =
     binary_operator I Mul (Strong \<lparr>value_m = v\<rparr>) (Numeric n) \<and>
   (binary_operator I op' (Numeric n) (Strong \<lparr>value_m = v\<rparr>) \<noteq> None \<longleftrightarrow> op' = Mul)"
proof (intro conjI)
  show "\<forall>(op, hook) \<in> set [(Mul, ValidateMultiply), (Div, ValidateDivide),
        (Mod, ValidateModulo), (Shl, LeftShift_call), (Shr, RightShift_call)].
      \<forall>r. native_binop op (native_value I v) n = Some r \<and>
          Validator I (hook v n) = Continues \<and>
          Validator I (ValidateInit (native_value I (word_of_int (int_of r)))) = Continues \<longrightarrow>
        binary_operator I op (Strong \<lparr>value_m = v\<rparr>) (Numeric n) =
          Some ([hook v n, ValidateInit (native_value I (word_of_int (int_of r)))],
                Returns \<lparr>value_m = word_of_int (int_of r)\<rparr>)"
    by (simp add: strong_vs_numeric_produces)
  show "map_option (\<lambda>r. (word_of_int (int_of r) :: 'a word))
     (native_binop Mul (native_value I v) n) = Some (v * word_of_int (int_of n))"
    by (rule native_Mul_word)
  show "m \<noteq> 0 \<and> static_cast C (a sdiv m) = a sdiv m \<longrightarrow>
      native_binop Div (native_value I v) n = Some (CVal C (a sdiv m)) \<and>
      native_binop Mod (native_value I v) n = Some (CVal C (a smod m))"
    using native_Div_value [OF assms(1-3)] native_Mod_value [OF assms(1-3)] by blast
  show "0 \<le> int_of n \<and> int_of n < int (bits (promote (ValueType I))) \<longrightarrow>
      map_option (\<lambda>r. (word_of_int (int_of r) :: 'a word))
        (native_binop Shl (native_value I v) n) = Some (push_bit k v) \<and>
      map_option (\<lambda>r. (word_of_int (int_of r) :: 'a word))
        (native_binop Shr (native_value I v) n) =
          Some (if NativeSigned I then signed_drop_bit k v else drop_bit k v)"
    unfolding assms(4) using native_Shl_word [of n I v] native_Shr_word [of n I v] by blast
  show "binary_operator I Mul (Numeric n) (Strong \<lparr>value_m = v\<rparr>) =
     binary_operator I Mul (Strong \<lparr>value_m = v\<rparr>) (Numeric n)"
    by (simp add: numeric_vs_strong_commutes)
  show "binary_operator I op' (Numeric n) (Strong \<lparr>value_m = v\<rparr>) \<noteq> None \<longleftrightarrow> op' = Mul"
    by (cases op') simp_all
qed

text \<open>
  For the amended C1: on a default-validated \<open>int8_t\<close> type, 100 * 3 and 3 * 100 hold 44
  (300 modulo 256), -7 / 2 is -3, -7 % 2 is -1, 100 << 3 holds 32 (800 modulo 256) and
  -7 >> 2 is -2.
\<close>

theorem numeric_operand_operators_where_defined_witness:
  "binary_operator \<lparr>TypeName = ''Small'', NativeSigned = True, NativePlainChar = False,
       Validator = (NullStrongIntValidator :: 8 word validator)\<rparr>
     Mul (Strong \<lparr>value_m = 100\<rparr>) (Numeric (CVal int_t 3)) =
     Some ([ValidateMultiply 100 (CVal int_t 3), ValidateInit (CVal int8_t 44)],
           Returns \<lparr>value_m = 44\<rparr>) \<and>
   binary_operator \<lparr>TypeName = ''Small'', NativeSigned = True, NativePlainChar = False,
       Validator = (NullStrongIntValidator :: 8 word validator)\<rparr>
     Mul (Numeric (CVal int_t 3)) (Strong \<lparr>value_m = 100\<rparr>) =
     Some ([ValidateMultiply 100 (CVal int_t 3), ValidateInit (CVal int8_t 44)],
           Returns \<lparr>value_m = 44\<rparr>) \<and>
   binary_operator \<lparr>TypeName = ''Small'', NativeSigned = True, NativePlainChar = False,
       Validator = (NullStrongIntValidator :: 8 word validator)\<rparr>
     Div (Strong \<lparr>value_m = - 7\<rparr>) (Numeric (CVal int_t 2)) =
     Some ([ValidateDivide (- 7) (CVal int_t 2), ValidateInit (CVal int8_t (- 3))],
           Returns \<lparr>value_m = - 3\<rparr>) \<and>
   binary_operator \<lparr>TypeName = ''Small'', NativeSigned = True, NativePlainChar = False,
       Validator = (NullStrongIntValidator :: 8 word validator)\<rparr>
     Mod (Strong \<lparr>value_m = - 7\<rparr>) (Numeric (CVal int_t 2)) =
     Some ([ValidateModulo (- 7) (CVal int_t 2), ValidateInit (CVal int8_t (- 1))],
           Returns \<lparr>value_m = - 1\<rparr>) \<and>
   binary_operator \<lparr>TypeName = ''Small'', NativeSigned = True, NativePlainChar = False,
       Validator = (NullStrongIntValidator :: 8 word validator)\<rparr>
     Shl (Strong \<lparr>value_m = 100\<rparr>) (Numeric (CVal int_t 3)) =
     Some ([ValidateLeftShift 100 (CVal int64_t 3), ValidateInit (CVal int8_t 32)],
           Returns \<lparr>value_m = 32\<rparr>) \<and>
   binary_operator \<lparr>TypeName = ''Small'', NativeSigned = True, NativePlainChar = False,
       Validator = (NullStrongIntValidator :: 8 word validator)\<rparr>
     Shr (Strong \<lparr>value_m = - 7\<rparr>) (Numeric (CVal int_t 2)) =
     Some ([ValidateRightShift (- 7) (CVal int64_t 2), ValidateInit (CVal int8_t (- 2))],
           Returns \<lparr>value_m = - 2\<rparr>)"
proof -
  let ?I = "\<lparr>TypeName = ''Small'', NativeSigned = True, NativePlainChar = False,
       Validator = (NullStrongIntValidator :: 8 word validator)\<rparr>"
  let ?ops = "[(Mul, ValidateMultiply), (Div, ValidateDivide), (Mod, ValidateModulo),
      (Shl, LeftShift_call), (Shr, RightShift_call)]"
  have step: "binary_operator ?I op (Strong \<lparr>value_m = v\<rparr>) (Numeric n) =
      Some ([hook v n, ValidateInit (native_value ?I w)], Returns \<lparr>value_m = w\<rparr>)"
    if "(op, hook) \<in> set ?ops"
      and "map_option (\<lambda>r. (word_of_int (int_of r) :: 8 word))
        (native_binop op (native_value ?I v) n) = Some w"
    for op hook v n w
  proof -
    from that(2) obtain r where r: "native_binop op (native_value ?I v) n = Some r"
      and w: "word_of_int (int_of r) = w"
      by auto
    from numeric_operand_operators_where_defined
      [where I = ?I and v = v and n = n and op' = Mul, OF refl refl refl refl, THEN conjunct1]
    have "\<forall>r. native_binop op (native_value ?I v) n = Some r \<and>
          Validator ?I (hook v n) = Continues \<and>
          Validator ?I (ValidateInit (native_value ?I (word_of_int (int_of r)))) = Continues \<longrightarrow>
        binary_operator ?I op (Strong \<lparr>value_m = v\<rparr>) (Numeric n) =
          Some ([hook v n, ValidateInit (native_value ?I (word_of_int (int_of r)))],
                Returns \<lparr>value_m = word_of_int (int_of r)\<rparr>)"
      using that(1) by blast
    with r w show ?thesis
      by (simp add: NullStrongIntValidator_Continues)
  qed
  have C: "common_type (ValueType ?I) int_t = int_t"
    by (simp add: common_type_def promote_def ValueType_def int_t_def Let_def)
  have sd: "(- 7 :: int) sdiv 2 = - 3" "(- 7 :: int) smod 2 = - 1"
    by (simp_all add: signed_divide_int_def signed_modulo_int_def)
  have P: "promote (ValueType ?I) = int_t"
    by (simp add: promote_def ValueType_def int_t_def)
  have s: "static_cast int_t 2 = 2" "static_cast int_t (- 7) = - 7"
    "static_cast int_t (- 3) = - 3"
    by (simp_all add: static_cast_def int_t_def)
  have nv: "native_value ?I 100 = CVal int8_t 100" "native_value ?I (- 7) = CVal int8_t (- 7)"
    "native_value ?I 44 = CVal int8_t 44" "native_value ?I 32 = CVal int8_t 32"
    "native_value ?I (- 3) = CVal int8_t (- 3)" "native_value ?I (- 2) = CVal int8_t (- 2)"
    "native_value ?I (- 1) = CVal int8_t (- 1)"
    by (simp_all add: native_value_def ValueType_def int8_t_def)
  have c64: "cast_to int64_t (CVal int_t 3) = CVal int64_t 3"
    "cast_to int64_t (CVal int_t 2) = CVal int64_t 2"
    by (simp_all add: cast_to_def static_cast_def int64_t_def)
  note A = numeric_operand_operators_where_defined
      [where I = ?I and v = 100 and n = "CVal int_t 3" and op' = Mul, OF refl refl refl refl]
  note B = numeric_operand_operators_where_defined
      [where I = ?I and v = "- 7" and n = "CVal int_t 2" and op' = Mul, OF refl refl refl refl]
  have e: "(300 :: 8 word) = 44" "(800 :: 8 word) = 32" "push_bit 3 (100 :: 8 word) = 32"
    by (simp_all add: push_bit_eq_mult)
  have "sint (signed_drop_bit 2 (- 7 :: 8 word)) = - 2"
    by (simp add: sint_signed_drop_bit_eq drop_bit_eq_div)
  then have "(word_of_int (sint (signed_drop_bit 2 (- 7 :: 8 word))) :: 8 word) = word_of_int (- 2)"
    by (rule arg_cong)
  then have e': "signed_drop_bit 2 (- 7 :: 8 word) = - 2"
    by simp
  have mul: "map_option (\<lambda>r. (word_of_int (int_of r) :: 8 word))
      (native_binop Mul (native_value ?I 100) (CVal int_t 3)) = Some 44"
    using A [THEN conjunct2, THEN conjunct1] by (simp add: e)
  have shl: "map_option (\<lambda>r. (word_of_int (int_of r) :: 8 word))
      (native_binop Shl (native_value ?I 100) (CVal int_t 3)) = Some 32"
    using A [THEN conjunct2, THEN conjunct2, THEN conjunct2, THEN conjunct1]
    by (simp add: P int_t_def e)
  have shr: "map_option (\<lambda>r. (word_of_int (int_of r) :: 8 word))
      (native_binop Shr (native_value ?I (- 7)) (CVal int_t 2)) = Some (- 2)"
    using B [THEN conjunct2, THEN conjunct2, THEN conjunct2, THEN conjunct1]
    by (simp add: P int_t_def e')
  have divmod: "native_binop Div (native_value ?I (- 7)) (CVal int_t 2) = Some (CVal int_t (- 3)) \<and>
      native_binop Mod (native_value ?I (- 7)) (CVal int_t 2) = Some (CVal int_t (- 1))"
    using B [THEN conjunct2, THEN conjunct2, THEN conjunct1]
    by (simp add: C s sd native_value_def)
  have r1: "binary_operator ?I Mul (Strong \<lparr>value_m = 100\<rparr>) (Numeric (CVal int_t 3)) =
     Some ([ValidateMultiply 100 (CVal int_t 3), ValidateInit (CVal int8_t 44)],
           Returns \<lparr>value_m = 44\<rparr>)"
    using step [of Mul ValidateMultiply 100 "CVal int_t 3" 44] mul by (simp add: nv)
  have r2: "binary_operator ?I Mul (Numeric (CVal int_t 3)) (Strong \<lparr>value_m = 100\<rparr>) =
     Some ([ValidateMultiply 100 (CVal int_t 3), ValidateInit (CVal int8_t 44)],
           Returns \<lparr>value_m = 44\<rparr>)"
    using A [THEN conjunct2, THEN conjunct2, THEN conjunct2, THEN conjunct2, THEN conjunct1] r1
    by simp
  have r3: "binary_operator ?I Div (Strong \<lparr>value_m = - 7\<rparr>) (Numeric (CVal int_t 2)) =
     Some ([ValidateDivide (- 7) (CVal int_t 2), ValidateInit (CVal int8_t (- 3))],
           Returns \<lparr>value_m = - 3\<rparr>)"
    using step [of Div ValidateDivide "- 7" "CVal int_t 2" "- 3"] divmod by (simp add: nv)
  have r4: "binary_operator ?I Mod (Strong \<lparr>value_m = - 7\<rparr>) (Numeric (CVal int_t 2)) =
     Some ([ValidateModulo (- 7) (CVal int_t 2), ValidateInit (CVal int8_t (- 1))],
           Returns \<lparr>value_m = - 1\<rparr>)"
    using step [of Mod ValidateModulo "- 7" "CVal int_t 2" "- 1"] divmod by (simp add: nv)
  have r5: "binary_operator ?I Shl (Strong \<lparr>value_m = 100\<rparr>) (Numeric (CVal int_t 3)) =
     Some ([ValidateLeftShift 100 (CVal int64_t 3), ValidateInit (CVal int8_t 32)],
           Returns \<lparr>value_m = 32\<rparr>)"
    using step [of Shl LeftShift_call 100 "CVal int_t 3" 32] shl
    by (simp add: nv LeftShift_call_def c64)
  have r6: "binary_operator ?I Shr (Strong \<lparr>value_m = - 7\<rparr>) (Numeric (CVal int_t 2)) =
     Some ([ValidateRightShift (- 7) (CVal int64_t 2), ValidateInit (CVal int8_t (- 2))],
           Returns \<lparr>value_m = - 2\<rparr>)"
    using step [of Shr RightShift_call "- 7" "CVal int_t 2" "- 2"] shr
    by (simp add: nv RightShift_call_def c64)
  show ?thesis
    using r1 r2 r3 r4 r5 r6 by blast
qed

text \<open>
  C9, as stated, fails: the header has no operator \<open>n % x\<close> with the integer on the left
  and the StrongInt on the right.
\<close>

theorem numeric_on_the_left_counterexample:
  "binary_operator \<lparr>TypeName = ''Id'', NativeSigned = True, NativePlainChar = False,
       Validator = (NullStrongIntValidator :: 32 word validator)\<rparr>
     Mod (Numeric (CVal int_t 7)) (Strong \<lparr>value_m = 3\<rparr>) = None"
  by simp

text \<open>
  C9, amended. For \<open>%\<close>, \<open><<\<close> and \<open>>>\<close> the only operator takes the StrongInt on the
  left and the integer on the right, calls the validation function on \<open>(x.value(), n)\<close> and
  computes \<open>x.value() op n\<close>; with the integer on the left there is none. The only operator
  with the integer on the left is \<open>*\<close>: unless a validation call aborts, \<open>n * x\<close> calls
  \<open>ValidateMultiply\<close> on \<open>(x.value(), n)\<close> and returns a StrongInt holding the word product
  of \<open>x.value()\<close> and \<open>n\<close>.
\<close>

theorem numeric_on_the_right_only:
  "(\<forall>(op, hook) \<in> set [(Mod, ValidateModulo), (Shl, LeftShift_call), (Shr, RightShift_call)].
      binary_operator I op (Numeric n) (Strong x) = None \<and>
      (\<exists>t res. binary_operator I op (Strong x) (Numeric n) = Some (t, res) \<and>
        hd t = hook (value_m x) n \<and>
        ((\<forall>h \<in> set t. Validator I h = Continues) \<longrightarrow>
           res = (case native_binop op (native_value I (value_m x)) n of
                    Some r \<Rightarrow> Returns \<lparr>value_m = word_of_int (int_of r)\<rparr>
                  | None \<Rightarrow> Undefined)))) \<and>
   (binary_operator I op' (Numeric n) (Strong x) \<noteq> None \<longleftrightarrow> op' = Mul) \<and>
   (Validator I (ValidateMultiply (value_m x) n) = Continues \<and>
    Validator I (ValidateInit (native_value I (value_m x * word_of_int (int_of n)))) =
      Continues \<longrightarrow>
      binary_operator I Mul (Numeric n) (Strong x) =
        Some ([ValidateMultiply (value_m x) n,
               ValidateInit (native_value I (value_m x * word_of_int (int_of n)))],
              Returns \<lparr>value_m = value_m x * word_of_int (int_of n)\<rparr>))"
proof -
  have x: "x = \<lparr>value_m = value_m x\<rparr>" by simp
  have "Validator I (ValidateMultiply (value_m x) n) = Continues \<and>
    Validator I (ValidateInit (native_value I (value_m x * word_of_int (int_of n)))) =
      Continues \<longrightarrow>
      binary_operator I Mul (Numeric n) (Strong x) =
        Some ([ValidateMultiply (value_m x) n,
               ValidateInit (native_value I (value_m x * word_of_int (int_of n)))],
              Returns \<lparr>value_m = value_m x * word_of_int (int_of n)\<rparr>)"
    using numeric_times_strong_run [of I "value_m x" n] by (subst (3) x) simp
  then show ?thesis
    by (cases op') (simp_all add: strong_vs_numeric_value)
qed

text \<open>
  For the amended C9: on an \<open>int\<close> type, \<open>2 % x\<close> has no operator, and with \<open>x\<close> holding 7,
  \<open>x % 2\<close> is 1, \<open>x << 2\<close> is 28, \<open>x >> 2\<close> is 1 and \<open>2 * x\<close> is 14.
\<close>

theorem numeric_on_the_right_only_witness:
  "binary_operator \<lparr>TypeName = ''Id'', NativeSigned = True, NativePlainChar = False,
       Validator = (NullStrongIntValidator :: 32 word validator)\<rparr>
     Mod (Numeric (CVal int_t 2)) (Strong \<lparr>value_m = 7\<rparr>) = None \<and>
   (\<exists>t. binary_operator \<lparr>TypeName = ''Id'', NativeSigned = True, NativePlainChar = False,
       Validator = (NullStrongIntValidator :: 32 word validator)\<rparr>
     Mod (Strong \<lparr>value_m = 7\<rparr>) (Numeric (CVal int_t 2)) = Some (t, Returns \<lparr>value_m = 1\<rparr>)) \<and>
   (\<exists>t. binary_operator \<lparr>TypeName = ''Id'', NativeSigned = True, NativePlainChar = False,
       Validator = (NullStrongIntValidator :: 32 word validator)\<rparr>
     Shl (Strong \<lparr>value_m = 7\<rparr>) (Numeric (CVal int_t 2)) = Some (t, Returns \<lparr>value_m = 28\<rparr>)) \<and>
   (\<exists>t. binary_operator \<lparr>TypeName = ''Id'', NativeSigned = True, NativePlainChar = False,
       Validator = (NullStrongIntValidator :: 32 word validator)\<rparr>
     Shr (Strong \<lparr>value_m = 7\<rparr>) (Numeric (CVal int_t 2)) = Some (t, Returns \<lparr>value_m = 1\<rparr>)) \<and>
   binary_operator \<lparr>TypeName = ''Id'', NativeSigned = True, NativePlainChar = False,
       Validator = (NullStrongIntValidator :: 32 word validator)\<rparr>
     Mul (Numeric (CVal int_t 2)) (Strong \<lparr>value_m = 7\<rparr>) =
     Some ([ValidateMultiply 7 (CVal int_t 2), ValidateInit (CVal int_t 14)],
           Returns \<lparr>value_m = 14\<rparr>)"
  using numeric_on_the_right_only [of "\<lparr>TypeName = ''Id'', NativeSigned = True, NativePlainChar = False,
       Validator = (NullStrongIntValidator :: 32 word validator)\<rparr>" "CVal int_t 2" "\<lparr>value_m = 7\<rparr>" Mod]
  by (auto simp add: NullStrongIntValidator_Continues native_binop_def native_value_def
      ValueType_def int_t_def common_type_def promote_def static_cast_def Let_def)

section \<open>Comparison\<close>

text \<open>
  C5. Each of \<open>==\<close>, \<open>!=\<close>, \<open><\<close>, \<open><=\<close>, \<open>>\<close>, \<open>>=\<close> on two instances of one
  instantiation returns the comparison of the two native values (signed or unsigned, as
  the native type is) and makes no validation call, whatever the validator.
\<close>

theorem strong_comparison_is_native_without_hooks:
  "STRONG_INT_COMPARISON_OP op I x y =
     ([], Returns
        (case op of
           Eq \<Rightarrow> int_of (native_value I (value_m x)) = int_of (native_value I (value_m y))
         | Ne \<Rightarrow> int_of (native_value I (value_m x)) \<noteq> int_of (native_value I (value_m y))
         | Lt \<Rightarrow> int_of (native_value I (value_m x)) < int_of (native_value I (value_m y))
         | Le \<Rightarrow> int_of (native_value I (value_m x)) \<le> int_of (native_value I (value_m y))
         | Gt \<Rightarrow> int_of (native_value I (value_m x)) > int_of (native_value I (value_m y))
         | Ge \<Rightarrow> int_of (native_value I (value_m x)) \<ge> int_of (native_value I (value_m y))))"
  by (simp add: STRONG_INT_COMPARISON_OP_def native_compare_same ret_def)

text \<open>
  For C5: the 32-bit pattern of 4000000000 is below 1 on a signed type and not below 1
  on an unsigned one; a validator that aborts on every call is never called.
\<close>

theorem strong_comparison_is_native_without_hooks_witness:
  "STRONG_INT_COMPARISON_OP Lt \<lparr>TypeName = ''Delta'', NativeSigned = True, NativePlainChar = False,
       Validator = (NullStrongIntValidator :: 32 word validator)\<rparr>
     \<lparr>value_m = 4000000000\<rparr> \<lparr>value_m = 1\<rparr> = ([], Returns True) \<and>
   STRONG_INT_COMPARISON_OP Lt \<lparr>TypeName = ''Count'', NativeSigned = False, NativePlainChar = False,
       Validator = ((\<lambda>h. Aborts) :: 32 word validator)\<rparr>
     \<lparr>value_m = 4000000000\<rparr> \<lparr>value_m = 1\<rparr> = ([], Returns False) \<and>
   STRONG_INT_COMPARISON_OP Ge \<lparr>TypeName = ''Count'', NativeSigned = False, NativePlainChar = False,
       Validator = ((\<lambda>h. Aborts) :: 32 word validator)\<rparr>
     \<lparr>value_m = 7\<rparr> \<lparr>value_m = 7\<rparr> = ([], Returns True)"
  by (simp add: strong_comparison_is_native_without_hooks native_value_def)

section \<open>Hashing\<close>

text \<open>
  C7. Two instances of one instantiation with equal stored values, or equal by
  \<open>operator==\<close>, have equal hashes under \<open>Hasher\<close> and under \<open>std::hash\<close>; the hash is
  the native value cast to \<open>size_t\<close>.
\<close>

theorem equal_values_hash_equally:
  "(value_m x = value_m y \<longrightarrow> Hasher I x = Hasher I y \<and> std_hash I x = std_hash I y) \<and>
   (snd (STRONG_INT_COMPARISON_OP Eq I x y) = Returns True \<longrightarrow>
      Hasher I x = Hasher I y \<and> std_hash I x = std_hash I y) \<and>
   std_hash I x = CVal size_t (static_cast size_t (int_of (native_value I (value_m x))))"
  by (simp add: Hasher_def std_hash_def cast_to_def STRONG_INT_COMPARISON_OP_def
      native_compare_same ret_def)

text \<open>For C7: 40 + 2 and 42 compare equal and both hash to 42.\<close>

theorem equal_values_hash_equally_witness:
  "snd (STRONG_INT_COMPARISON_OP Eq \<lparr>TypeName = ''Id'', NativeSigned = True, NativePlainChar = False,
       Validator = (NullStrongIntValidator :: 32 word validator)\<rparr>
     \<lparr>value_m = 40 + 2\<rparr> \<lparr>value_m = 42\<rparr>) = Returns True \<and>
   std_hash \<lparr>TypeName = ''Id'', NativeSigned = True, NativePlainChar = False,
       Validator = (NullStrongIntValidator :: 32 word validator)\<rparr> \<lparr>value_m = 40 + 2\<rparr> =
   std_hash \<lparr>TypeName = ''Id'', NativeSigned = True, NativePlainChar = False,
       Validator = (NullStrongIntValidator :: 32 word validator)\<rparr> \<lparr>value_m = 42\<rparr> \<and>
   std_hash \<lparr>TypeName = ''Id'', NativeSigned = True, NativePlainChar = False,
       Validator = (NullStrongIntValidator :: 32 word validator)\<rparr> \<lparr>value_m = 42\<rparr> =
     CVal size_t 42"
proof -
  let ?I = "\<lparr>TypeName = ''Id'', NativeSigned = True, NativePlainChar = False,
       Validator = (NullStrongIntValidator :: 32 word validator)\<rparr>"
  have eq: "snd (STRONG_INT_COMPARISON_OP Eq ?I \<lparr>value_m = 40 + 2\<rparr> \<lparr>value_m = 42\<rparr>) =
      Returns True"
    unfolding STRONG_INT_COMPARISON_OP_def native_compare_same ret_def
    by (simp add: native_value_def)
  have "static_cast size_t 42 = 42"
    by (simp add: static_cast_def size_t_def)
  then show ?thesis
    using equal_values_hash_equally [of "\<lparr>value_m = 40 + 2\<rparr>" "\<lparr>value_m = 42\<rparr>" ?I] eq
    by (simp add: native_value_def)
qed

section \<open>Stream output\<close>

text \<open>
  C8, as stated, fails: plain \<open>char\<close> is an 8-bit native type too, and a StrongInt over
  it holding 65 is written as the letter \<open>A\<close>.
\<close>

theorem plain_char_writes_glyph_counterexample:
  "stream_out [] \<lparr>TypeName = ''Letter'', NativeSigned = True, NativePlainChar = True,
       Validator = (NullStrongIntValidator :: 8 word validator)\<rparr> \<lparr>value_m = 65\<rparr> = ''A''"
  by (simp add: stream_out_def NativeType_is_def stream_out_generic_def ostream_insert_def
      native_value_def ValueType_def char_of_def)

text \<open>
  C8, amended. Writing a StrongInt whose native type is \<open>int8_t\<close> or \<open>uint8_t\<close> to a
  stream appends the decimal digits of its native value; one holding 65 writes \<open>65\<close> and
  not the letter \<open>A\<close>.
\<close>

theorem int8_and_uint8_render_decimal:
  fixes I :: "'a::len word strong_type"
  assumes "NativeType_is I int8_t \<or> NativeType_is I uint8_t"
  shows "stream_out os I x = os @ decimal (int_of (native_value I (value_m x))) \<and>
   (value_m x = 65 \<longrightarrow> stream_out os I x = os @ ''65'' \<and> stream_out os I x \<noteq> os @ ''A'')"
proof -
  note w = int8_uint8_width [OF assms]
  have b: "bits int_t = 32" "bits unsigned_int_t = 32"
    by (simp_all add: int_t_def unsigned_int_t_def)
  have gen: "stream_out os I x = os @ decimal (int_of (native_value I (value_m x)))"
  proof (cases "NativeSigned I")
    case True
    then have "NativeType_is I int8_t" by (rule w(3))
    then show ?thesis
      using True
      by (simp add: stream_out_def stream_out_int8_t_def ostream_insert_def cast_to_def
          native_value_def static_cast_int_t_of_8 [OF w(1)] b)
  next
    case False
    then have u: "NativeType_is I uint8_t" by (rule w(4))
    have "\<not> NativeType_is I int8_t"
      using False by (simp add: NativeType_is_def ValueType_def int8_t_def)
    then show ?thesis
      using False u
      by (simp add: stream_out_def stream_out_uint8_t_def ostream_insert_def cast_to_def
          native_value_def static_cast_unsigned_int_t_of_8 [OF w(1)] b)
  qed
  have d: "decimal 65 = ''65''"
    by code_simp
  show ?thesis
    using gen by (simp add: native_65 [OF w(1)] d)
qed

text \<open>For the amended C8: -5 on an \<open>int8_t\<close> type, 200 and 65 on an \<open>uint8_t\<close> type.\<close>

theorem int8_and_uint8_render_decimal_witness:
  "stream_out ''v='' \<lparr>TypeName = ''Small'', NativeSigned = True, NativePlainChar = False,
       Validator = (NullStrongIntValidator :: 8 word validator)\<rparr> \<lparr>value_m = - 5\<rparr> = ''v=-5'' \<and>
   stream_out ''v='' \<lparr>TypeName = ''Byte'', NativeSigned = False, NativePlainChar = False,
       Validator = (NullStrongIntValidator :: 8 word validator)\<rparr> \<lparr>value_m = 200\<rparr> = ''v=200'' \<and>
   stream_out [] \<lparr>TypeName = ''Byte'', NativeSigned = False, NativePlainChar = False,
       Validator = (NullStrongIntValidator :: 8 word validator)\<rparr> \<lparr>value_m = 65\<rparr> = ''65''"
proof -
  let ?S = "\<lparr>TypeName = ''Small'', NativeSigned = True, NativePlainChar = False,
       Validator = (NullStrongIntValidator :: 8 word validator)\<rparr>"
  let ?B = "\<lparr>TypeName = ''Byte'', NativeSigned = False, NativePlainChar = False,
       Validator = (NullStrongIntValidator :: 8 word validator)\<rparr>"
  have S: "NativeType_is ?S int8_t \<or> NativeType_is ?S uint8_t"
    by (simp add: NativeType_is_def ValueType_def int8_t_def)
  have B: "NativeType_is ?B int8_t \<or> NativeType_is ?B uint8_t"
    by (simp add: NativeType_is_def ValueType_def uint8_t_def)
  have d: "decimal (- 5) = ''-5''" "decimal 200 = ''200''" "decimal 65 = ''65''"
    by code_simp+
  show ?thesis
    using int8_and_uint8_render_decimal [OF S, of "''v=''" "\<lparr>value_m = - 5\<rparr>"]
      int8_and_uint8_render_decimal [OF B, of "''v=''" "\<lparr>value_m = 200\<rparr>"]
      int8_and_uint8_render_decimal [OF B, of "[]" "\<lparr>value_m = 65\<rparr>"]
    by (simp add: native_value_def d)
qed

section \<open>Range iteration\<close>

text \<open>
  C2. When \<open>b <= e\<close> and no increment is vetoed by the validator, the loop over
  \<open>StrongIntRange(b, e)\<close> returns values whose native values are \<open>b, b + 1, \<dots>, e - 1\<close>
  in this order. \<open>StrongIntRange(e, e)\<close> yields nothing. \<open>StrongIntRange(e)\<close> builds
  \<open>IntType(0)\<close>, which passes \<open>ValidateInit\<close>, and is then \<open>StrongIntRange(0, e)\<close>. A round
  is entered exactly when the current value differs from the end value; it yields the
  current value and goes on from its increment.
\<close>

theorem range_yields_begin_up_to_end:
  "(snd (STRONG_INT_COMPARISON_OP Le I \<lparr>value_m = b\<rparr> \<lparr>value_m = e\<rparr>) = Returns True \<and>
    (\<forall>v. Validator I (ValidateAdd v 1) = Continues) \<longrightarrow>
      (\<exists>t vs. for_range I (StrongIntRange_begin_end \<lparr>value_m = b\<rparr> \<lparr>value_m = e\<rparr>) =
           (t, Returns vs) \<and>
         map (\<lambda>x. int_of (native_value I (value_m x))) vs =
           [int_of (native_value I b)..int_of (native_value I e) - 1])) \<and>
   for_range I (StrongIntRange_begin_end \<lparr>value_m = e\<rparr> \<lparr>value_m = e\<rparr>) = ([], Returns []) \<and>
   (Validator I (ValidateInit (CVal int_t 0)) = Continues \<longrightarrow>
      StrongIntRange_end I \<lparr>value_m = e\<rparr> =
        ([ValidateInit (CVal int_t 0)],
         Returns (StrongIntRange_begin_end \<lparr>value_m = 0\<rparr> \<lparr>value_m = e\<rparr>))) \<and>
   (b \<noteq> e \<and> Validator I (ValidateAdd b 1) = Continues \<longrightarrow>
      for_range I (StrongIntRange_begin_end \<lparr>value_m = b\<rparr> \<lparr>value_m = e\<rparr>) =
        (case for_range I (StrongIntRange_begin_end \<lparr>value_m = b + 1\<rparr> \<lparr>value_m = e\<rparr>) of
           (t, Returns rest) \<Rightarrow> (ValidateAdd b 1 # t, Returns (\<lparr>value_m = b\<rparr> # rest))
         | (t, Aborted) \<Rightarrow> (ValidateAdd b 1 # t, Aborted)
         | (t, Undefined) \<Rightarrow> (ValidateAdd b 1 # t, Undefined)))"
proof (intro conjI impI)
  assume a: "snd (STRONG_INT_COMPARISON_OP Le I \<lparr>value_m = b\<rparr> \<lparr>value_m = e\<rparr>) = Returns True \<and>
    (\<forall>v. Validator I (ValidateAdd v 1) = Continues)"
  then have le: "int_of (native_value I b) \<le> int_of (native_value I e)"
    by (simp add: STRONG_INT_COMPARISON_OP_def native_compare_same ret_def)
  from a have V: "\<forall>v. Validator I (ValidateAdd v 1) = Continues" by simp
  show "\<exists>t vs. for_range I (StrongIntRange_begin_end \<lparr>value_m = b\<rparr> \<lparr>value_m = e\<rparr>) =
           (t, Returns vs) \<and>
         map (\<lambda>x. int_of (native_value I (value_m x))) vs =
           [int_of (native_value I b)..int_of (native_value I e) - 1]"
    using for_range_run [OF V, of b e] range_values_ordered [OF le] by blast
next
  show "for_range I (StrongIntRange_begin_end \<lparr>value_m = e\<rparr> \<lparr>value_m = e\<rparr>) = ([], Returns [])"
    by (simp add: for_range_def StrongIntRange_begin_end_def loop_stop)
next
  assume "Validator I (ValidateInit (CVal int_t 0)) = Continues"
  then show "StrongIntRange_end I \<lparr>value_m = e\<rparr> =
        ([ValidateInit (CVal int_t 0)],
         Returns (StrongIntRange_begin_end \<lparr>value_m = 0\<rparr> \<lparr>value_m = e\<rparr>))"
    by (simp add: StrongIntRange_end_run)
next
  assume "b \<noteq> e \<and> Validator I (ValidateAdd b 1) = Continues"
  then show "for_range I (StrongIntRange_begin_end \<lparr>value_m = b\<rparr> \<lparr>value_m = e\<rparr>) =
        (case for_range I (StrongIntRange_begin_end \<lparr>value_m = b + 1\<rparr> \<lparr>value_m = e\<rparr>) of
           (t, Returns rest) \<Rightarrow> (ValidateAdd b 1 # t, Returns (\<lparr>value_m = b\<rparr> # rest))
         | (t, Aborted) \<Rightarrow> (ValidateAdd b 1 # t, Aborted)
         | (t, Undefined) \<Rightarrow> (ValidateAdd b 1 # t, Undefined))"
    by (simp add: for_range_def StrongIntRange_begin_end_def loop_step)
qed

text \<open>
  For C2: on a default-validated \<open>int\<close> type, the range from 0 to 5 yields 0, 1, 2, 3, 4;
  the range from 3 to 3 yields nothing; the range to 5 is the range from 0 to 5; the
  range from 3 to 5 makes two increments.
\<close>

theorem range_yields_begin_up_to_end_witness:
  "(\<exists>t vs. for_range \<lparr>TypeName = ''Index'', NativeSigned = True, NativePlainChar = False,
         Validator = (NullStrongIntValidator :: 32 word validator)\<rparr>
       (StrongIntRange_begin_end \<lparr>value_m = 0\<rparr> \<lparr>value_m = 5\<rparr>) = (t, Returns vs) \<and>
     map (\<lambda>x. int_of (native_value \<lparr>TypeName = ''Index'', NativeSigned = True, NativePlainChar = False,
         Validator = (NullStrongIntValidator :: 32 word validator)\<rparr> (value_m x))) vs =
       [0, 1, 2, 3, 4]) \<and>
   for_range \<lparr>TypeName = ''Index'', NativeSigned = True, NativePlainChar = False,
       Validator = (NullStrongIntValidator :: 32 word validator)\<rparr>
     (StrongIntRange_begin_end \<lparr>value_m = 3\<rparr> \<lparr>value_m = 3\<rparr>) = ([], Returns []) \<and>
   StrongIntRange_end \<lparr>TypeName = ''Index'', NativeSigned = True, NativePlainChar = False,
       Validator = (NullStrongIntValidator :: 32 word validator)\<rparr> \<lparr>value_m = 5\<rparr> =
     ([ValidateInit (CVal int_t 0)],
      Returns (StrongIntRange_begin_end \<lparr>value_m = 0\<rparr> \<lparr>value_m = 5\<rparr>)) \<and>
   for_range \<lparr>TypeName = ''Index'', NativeSigned = True, NativePlainChar = False,
       Validator = (NullStrongIntValidator :: 32 word validator)\<rparr>
     (StrongIntRange_begin_end \<lparr>value_m = 3\<rparr> \<lparr>value_m = 5\<rparr>) =
     ([ValidateAdd 3 1, ValidateAdd 4 1], Returns [\<lparr>value_m = 3\<rparr>, \<lparr>value_m = 4\<rparr>])"
proof -
  let ?I = "\<lparr>TypeName = ''Index'', NativeSigned = True, NativePlainChar = False,
       Validator = (NullStrongIntValidator :: 32 word validator)\<rparr>"
  have le: "snd (STRONG_INT_COMPARISON_OP Le ?I \<lparr>value_m = 0\<rparr> \<lparr>value_m = 5\<rparr>) = Returns True"
    unfolding STRONG_INT_COMPARISON_OP_def native_compare_same ret_def
    by (simp add: native_value_def)
  have V: "\<forall>v. Validator ?I (ValidateAdd v 1) = Continues" by simp
  have l: "[0..4] = [0, 1, 2, 3, 4 :: int]" by code_simp
  have A: "\<exists>t vs. for_range ?I (StrongIntRange_begin_end \<lparr>value_m = 0\<rparr> \<lparr>value_m = 5\<rparr>) =
        (t, Returns vs) \<and>
      map (\<lambda>x. int_of (native_value ?I (value_m x))) vs = [0, 1, 2, 3, 4]"
  proof -
    from range_yields_begin_up_to_end [of ?I 0 5, THEN conjunct1, rule_format, OF conjI [OF le V]]
    obtain t vs where r: "for_range ?I (StrongIntRange_begin_end \<lparr>value_m = 0\<rparr> \<lparr>value_m = 5\<rparr>) =
        (t, Returns vs)"
      and vs: "map (\<lambda>x. int_of (native_value ?I (value_m x))) vs =
        [int_of (native_value ?I 0)..int_of (native_value ?I 5) - 1]"
      by blast
    have "[int_of (native_value ?I 0)..int_of (native_value ?I 5) - 1] = [0, 1, 2, 3, 4]"
      by (simp add: native_value_def l)
    with r vs show ?thesis by simp
  qed
  have B: "for_range ?I (StrongIntRange_begin_end \<lparr>value_m = e\<rparr> \<lparr>value_m = e\<rparr>) = ([], Returns [])"
    for e
    using range_yields_begin_up_to_end [of ?I e e] by simp
  have C: "StrongIntRange_end ?I \<lparr>value_m = 5\<rparr> =
     ([ValidateInit (CVal int_t 0)],
      Returns (StrongIntRange_begin_end \<lparr>value_m = 0\<rparr> \<lparr>value_m = 5\<rparr>))"
    using range_yields_begin_up_to_end [of ?I 5 5] by simp
  have step: "for_range ?I (StrongIntRange_begin_end \<lparr>value_m = b\<rparr> \<lparr>value_m = 5\<rparr>) =
        (case for_range ?I (StrongIntRange_begin_end \<lparr>value_m = b + 1\<rparr> \<lparr>value_m = 5\<rparr>) of
           (t, Returns rest) \<Rightarrow> (ValidateAdd b 1 # t, Returns (\<lparr>value_m = b\<rparr> # rest))
         | (t, Aborted) \<Rightarrow> (ValidateAdd b 1 # t, Aborted)
         | (t, Undefined) \<Rightarrow> (ValidateAdd b 1 # t, Undefined))" if "b \<noteq> 5" for b
    using range_yields_begin_up_to_end [of ?I b 5] that by simp
  have "for_range ?I (StrongIntRange_begin_end \<lparr>value_m = 4\<rparr> \<lparr>value_m = 5\<rparr>) =
      ([ValidateAdd 4 1], Returns [\<lparr>value_m = 4\<rparr>])"
    using step [of 4] B [of 5] by simp
  then have D: "for_range ?I (StrongIntRange_begin_end \<lparr>value_m = 3\<rparr> \<lparr>value_m = 5\<rparr>) =
      ([ValidateAdd 3 1, ValidateAdd 4 1], Returns [\<lparr>value_m = 3\<rparr>, \<lparr>value_m = 4\<rparr>])"
    using step [of 3] by simp
  show ?thesis
    using A B [of 3] C D by blast
qed

text \<open>
  C10. With increments that wrap modulo \<open>2 ^ w\<close> and a validator that lets every
  increment pass, the loop over \<open>StrongIntRange(b, e)\<close> returns for every \<open>b\<close> and \<open>e\<close>,
  also when \<open>b > e\<close>, after exactly \<open>(e - b) mod 2 ^ w\<close> increments, having visited
  \<open>b, b + 1, \<dots>\<close> through the wrap.
\<close>

theorem range_iteration_wraps_to_end:
  assumes "\<forall>v. Validator I (ValidateAdd v 1) = Continues"
  shows "for_range I (StrongIntRange_begin_end \<lparr>value_m = b\<rparr> \<lparr>value_m = e\<rparr>) =
       (map (\<lambda>k. ValidateAdd (b + of_nat k) 1) [0..<unat (e - b)],
        Returns (map (\<lambda>k. \<lparr>value_m = b + of_nat k\<rparr>) [0..<unat (e - b)])) \<and>
     int (unat (e - b)) =
       (int_of (native_value I e) - int_of (native_value I (b :: 'a::len word))) mod 2 ^ LENGTH('a)"
  using for_range_run [OF assms] unat_distance by blast

text \<open>
  For C10: on a default-validated \<open>uint8_t\<close> type the range from 254 to 2 visits 254,
  255, 0, 1 in four increments.
\<close>

theorem range_iteration_wraps_to_end_witness:
  "(\<forall>v. Validator \<lparr>TypeName = ''Index'', NativeSigned = False, NativePlainChar = False,
       Validator = (NullStrongIntValidator :: 8 word validator)\<rparr> (ValidateAdd v 1) = Continues) \<and>
   for_range \<lparr>TypeName = ''Index'', NativeSigned = False, NativePlainChar = False,
       Validator = (NullStrongIntValidator :: 8 word validator)\<rparr>
     (StrongIntRange_begin_end \<lparr>value_m = 254\<rparr> \<lparr>value_m = 2\<rparr>) =
     ([ValidateAdd 254 1, ValidateAdd 255 1, ValidateAdd 0 1, ValidateAdd 1 1],
      Returns [\<lparr>value_m = 254\<rparr>, \<lparr>value_m = 255\<rparr>, \<lparr>value_m = 0\<rparr>, \<lparr>value_m = 1\<rparr>])"
proof -
  let ?I = "\<lparr>TypeName = ''Index'', NativeSigned = False, NativePlainChar = False,
       Validator = (NullStrongIntValidator :: 8 word validator)\<rparr>"
  have h: "\<forall>v. Validator ?I (ValidateAdd v 1) = Continues" by simp
  have n: "map f [0..<4] = [f 0, f 1, f 2, f 3]" for f :: "nat \<Rightarrow> 'b"
  proof -
    have "[0..<4] = [0, 1, 2, 3 :: nat]" by code_simp
    then show ?thesis by simp
  qed
  show ?thesis
    using range_iteration_wraps_to_end [OF h, of 254 2] by (simp add: n)
qed

end
